theory Spec2Isabelle
  imports Main "HOL-Library.Word" "HOL-Library.AList"
begin

unbundle bit_operations_syntax

section \<open>The QUIC listener of \<open>libp2p/transport/quic/listener.py\<close>\<close>

subsection \<open>Bytes, slices and exceptions\<close>

type_synonym byte = "8 word"
type_synonym bytes = "byte list"

text \<open>
  The exceptions the parser's own reads can raise: an index out of range, and
  \<open>struct.unpack\<close> on a buffer of the wrong size.
\<close>

datatype exn = IndexError | StructError

text \<open>Sequencing of a computation that may raise: the first exception wins.\<close>

definition bind_exn :: "exn + 'a \<Rightarrow> ('a \<Rightarrow> exn + 'b) \<Rightarrow> exn + 'b" where
  "bind_exn m f = (case m of Inl e \<Rightarrow> Inl e | Inr x \<Rightarrow> f x)"

text \<open>\<open>data[i]\<close> for a non-negative index: raises IndexError out of range.\<close>

definition getitem :: "bytes \<Rightarrow> nat \<Rightarrow> exn + byte" where
  "getitem data i = (if i < length data then Inr (data ! i) else Inl IndexError)"

text \<open>\<open>data[a:b]\<close> for non-negative bounds: a slice never raises, it is cut at the end.\<close>

definition slice :: "bytes \<Rightarrow> nat \<Rightarrow> nat \<Rightarrow> bytes" where
  "slice data a b = take (b - a) (drop a data)"

text \<open>\<open>data[a:]\<close>.\<close>

definition slice_from :: "bytes \<Rightarrow> nat \<Rightarrow> bytes" where
  "slice_from data a = drop a data"

text \<open>
  \<open>struct.unpack("!I", b)[0]\<close>: a big-endian unsigned 32-bit integer; raises unless
  the buffer holds exactly four bytes.
\<close>

definition be32 :: "bytes \<Rightarrow> 32 word" where
  "be32 bs = foldl (\<lambda>acc b. push_bit 8 acc OR ucast b) 0 bs"

definition unpack_u32 :: "bytes \<Rightarrow> exn + 32 word" where
  "unpack_u32 bs = (if length bs = 4 then Inr (be32 bs) else Inl StructError)"

text \<open>\<open>struct.pack("!I", v)\<close> for a 32-bit value.\<close>

definition pack_u32 :: "32 word \<Rightarrow> bytes" where
  "pack_u32 v = [ucast (drop_bit 24 v), ucast (drop_bit 16 v), ucast (drop_bit 8 v), ucast v]"

subsection \<open>The packet parser\<close>

text \<open>
  Class \<open>QUICPacketInfo\<close>. The version is what \<open>struct.unpack("!I", ...)\<close> yields, an
  unsigned 32-bit integer; the packet type is two bits of the first byte, kept as the
  Python integer it is.
\<close>

record QUICPacketInfo =
  version :: "32 word"
  destination_cid :: bytes
  source_cid :: bytes
  packet_type :: nat
  token :: bytes

text \<open>
  The loop \<open>for i in range(1, 8): value |= data[i] << (8 * (7 - i))\<close> of
  \<open>_decode_varint\<close>, over the list of indices still to visit. Python integers are
  unbounded and all values here are non-negative, so they are naturals.
\<close>

fun varint_loop :: "bytes \<Rightarrow> nat list \<Rightarrow> nat \<Rightarrow> exn + nat" where
  "varint_loop data [] v = Inr v"
| "varint_loop data (i # is) v =
     bind_exn (getitem data i) (\<lambda>b. varint_loop data is (v OR push_bit (8 * (7 - i)) (unat b)))"

text \<open>
  \<open>_decode_varint\<close>: returns \<open>(value, number of bytes consumed)\<close>, and \<open>(0, 0)\<close> when
  the buffer is shorter than the width its first byte selects.
\<close>

definition decode_varint :: "bytes \<Rightarrow> exn + (nat \<times> nat)" where
  "decode_varint data =
     (if length data < 1 then Inr (0, 0)
      else bind_exn (getitem data 0) (\<lambda>first_byte.
        let length_bits = unat (drop_bit 6 (first_byte AND 0xC0)) in
        if length_bits = 0 then Inr (unat (first_byte AND 0x3F), 1)
        else if length_bits = 1 then
          (if length data < 2 then Inr (0, 0)
           else bind_exn (getitem data 1) (\<lambda>b1.
             Inr (push_bit 8 (unat (first_byte AND 0x3F)) OR unat b1, 2)))
        else if length_bits = 2 then
          (if length data < 4 then Inr (0, 0)
           else bind_exn (getitem data 1) (\<lambda>b1.
                bind_exn (getitem data 2) (\<lambda>b2.
                bind_exn (getitem data 3) (\<lambda>b3.
             Inr (push_bit 24 (unat (first_byte AND 0x3F)) OR push_bit 16 (unat b1)
                    OR push_bit 8 (unat b2) OR unat b3, 4)))))
        else
          (if length data < 8 then Inr (0, 0)
           else bind_exn (varint_loop data [1..<8] (push_bit 56 (unat (first_byte AND 0x3F))))
                  (\<lambda>v. Inr (v, 8)))))"

text \<open>
  The part of \<open>parse_quic_packet\<close> that reads the token of an Initial packet, from
  \<open>offset\<close> on (the body of \<open>if packet_type == 0\<close>). \<open>None\<close> is the early
  \<open>return None\<close>; otherwise the token.
\<close>

definition read_token :: "bytes \<Rightarrow> nat \<Rightarrow> exn + bytes option" where
  "read_token data offset =
     (if length data < offset + 1 then Inr None
      else bind_exn (decode_varint (slice_from data offset)) (\<lambda>(token_len, token_len_bytes).
        let offset' = offset + token_len_bytes in
        if length data < offset' + token_len then Inr None
        else Inr (Some (slice data offset' (offset' + token_len)))))"

text \<open>
  The body of the \<open>try\<close> block of \<open>parse_quic_packet\<close>: \<open>Inl\<close> is an exception raised
  inside it, \<open>Inr None\<close> a \<open>return None\<close>, \<open>Inr (Some info)\<close> the returned header.
\<close>

definition parse_quic_packet_body :: "bytes \<Rightarrow> exn + QUICPacketInfo option" where
  "parse_quic_packet_body data =
     (if length data < 1 then Inr None
      else bind_exn (getitem data 0) (\<lambda>first_byte.
        let is_long_header = (first_byte AND 0x80 \<noteq> 0) in
        if \<not> is_long_header then Inr None
        else
          let offset = 1 in
          if length data < offset + 4 then Inr None
          else bind_exn (unpack_u32 (slice data offset (offset + 4))) (\<lambda>vers.
            let offset = offset + 4 in
            if length data < offset + 1 then Inr None
            else bind_exn (getitem data offset) (\<lambda>dest_cid_len_byte.
              let dest_cid_len = unat dest_cid_len_byte;
                  offset = offset + 1 in
              if length data < offset + dest_cid_len then Inr None
              else
                let dest_cid = slice data offset (offset + dest_cid_len);
                    offset = offset + dest_cid_len in
                if length data < offset + 1 then Inr None
                else bind_exn (getitem data offset) (\<lambda>src_cid_len_byte.
                  let src_cid_len = unat src_cid_len_byte;
                      offset = offset + 1 in
                  if length data < offset + src_cid_len then Inr None
                  else
                    let src_cid = slice data offset (offset + src_cid_len);
                        offset = offset + src_cid_len;
                        ptype = unat (drop_bit 4 (first_byte AND 0x30)) in
                    bind_exn (if ptype = 0 then read_token data offset else Inr (Some []))
                      (\<lambda>tok. case tok of
                          None \<Rightarrow> Inr None
                        | Some t \<Rightarrow> Inr (Some \<lparr>version = vers, destination_cid = dest_cid,
                              source_cid = src_cid, packet_type = ptype, token = t\<rparr>)))))))"

text \<open>
  \<open>parse_quic_packet\<close>: the \<open>except Exception\<close> handler turns any exception of the body
  into \<open>None\<close>.
\<close>

definition parse_quic_packet :: "bytes \<Rightarrow> QUICPacketInfo option" where
  "parse_quic_packet data =
     (case parse_quic_packet_body data of Inl e \<Rightarrow> None | Inr r \<Rightarrow> r)"

subsection \<open>The listener's state\<close>

type_synonym cid = bytes
type_synonym addr = "string \<times> nat"
type_synonym protocol = string

text \<open>
  The QUIC engine object (aioquic's \<open>QuicConnection\<close>) as the listener sees it: what it
  was constructed from. The configuration is named by the protocol key whose entry of
  \<open>_quic_configs\<close> it was derived from.
\<close>

record QuicConnection =
  configuration :: protocol
  original_destination_connection_id :: cid

text \<open>The established wrapper \<open>QUICConnection\<close>, with the constructor arguments that vary.\<close>

record QUICConnection =
  quic_connection :: QuicConnection
  remote_addr :: addr
  is_initiator :: bool
  maddr :: "string \<times> nat \<times> string"

text \<open>
  What the listener does to its collaborators, in the order it does it: the datagrams
  handed to \<open>socket.sendto\<close>, the datagrams fed to an engine, the tasks started in the
  nursery, and the calls into an established connection.
\<close>

datatype action =
    Sendto bytes addr
  | Receive_datagram QuicConnection bytes addr
  | Start_tasks QUICConnection
  | Verify_peer QUICConnection
  | Start_handler QUICConnection
  | Stream_data QUICConnection
  | Stream_reset QUICConnection
  | Close QUICConnection
  | Socket_close

text \<open>
  The attributes of \<open>QUICListener\<close>. Dictionaries are association lists in insertion
  order (\<open>d[k] = v\<close> is \<open>AList.update\<close>, \<open>d.pop(k, None)\<close> is \<open>AList.delete\<close>, \<open>d.get(k)\<close> is
  \<open>map_of\<close>). A \<open>QuicConfiguration\<close> is reduced to its \<open>supported_versions\<close>; the socket
  and the nursery are present or \<open>None\<close>; the six counters of \<open>_stats\<close> are fields; a
  multiaddress is its text.
\<close>

record listener =
  quic_configs :: "(protocol \<times> 32 word list) list"
  security_manager :: bool
  socket_open :: bool
  bound_addresses :: "string list"
  connections :: "(cid \<times> QUICConnection) list"
  pending_connections :: "(cid \<times> QuicConnection) list"
  addr_to_cid :: "(addr \<times> cid) list"
  cid_to_addr :: "(cid \<times> addr) list"
  supported_versions :: "32 word set"
  closed :: bool
  listening :: bool
  nursery :: bool
  connections_accepted :: nat
  connections_rejected :: nat
  version_negotiations :: nat
  bytes_received :: nat
  packets_processed :: nat
  invalid_packets :: nat
  effects :: "action list"

text \<open>\<open>_get_supported_versions\<close>: the union of the configurations' wire versions.\<close>

definition get_supported_versions :: "(protocol \<times> 32 word list) list \<Rightarrow> 32 word set" where
  "get_supported_versions configs = set (concat (map snd configs))"

text \<open>\<open>__init__\<close>.\<close>

definition new_listener :: "(protocol \<times> 32 word list) list \<Rightarrow> bool \<Rightarrow> listener" where
  "new_listener configs sm =
     \<lparr>quic_configs = configs, security_manager = sm, socket_open = False,
      bound_addresses = [], connections = [], pending_connections = [],
      addr_to_cid = [], cid_to_addr = [],
      supported_versions = get_supported_versions configs,
      closed = False, listening = False, nursery = False,
      connections_accepted = 0, connections_rejected = 0, version_negotiations = 0,
      bytes_received = 0, packets_processed = 0, invalid_packets = 0, effects = []\<rparr>"

subsection \<open>What the engine and the helpers do during one call\<close>

text \<open>
  The events \<open>_process_quic_events\<close> tells apart, and any other event. One call of
  \<open>next_event()\<close> returns an event or raises; the end of the list is the call that
  returns \<open>None\<close>.
\<close>

datatype event =
    ConnectionTerminated
  | HandshakeCompleted
  | StreamDataReceived
  | StreamReset
  | Other_event

datatype next_event = Event event | Next_event_raises

text \<open>
  The behaviour of the code outside this file while one datagram is processed; each
  datagram comes with its own.
  \<^item> \<open>wire_format\<close>: the imported helper \<open>custom_quic_version_to_wire_format\<close>, taken
    not to raise on the configured protocols;
  \<^item> \<open>create_fails\<close>: \<open>create_server_config_from_base\<close> or the \<open>QuicConnection\<close>
    constructor raises;
  \<^item> \<open>token_bytes\<close>: the result of \<open>secrets.token_bytes(8)\<close>;
  \<^item> \<open>receive_fails\<close>: \<open>receive_datagram\<close> raises;
  \<^item> \<open>next_events\<close>: the results of the successive \<open>next_event()\<close> calls;
  \<^item> \<open>datagrams_to_send\<close>: the result of the engine's \<open>datagrams_to_send\<close> (the empty
    list also stands for the call raising: \<open>_transmit_for_connection\<close> catches it and
    changes nothing);
  \<^item> \<open>wrap_fails\<close>: \<open>create_quic_multiaddr\<close> or the \<open>QUICConnection\<close> constructor raises;
  \<^item> \<open>verify_fails\<close>: \<open>_verify_peer_identity_with_security\<close> raises;
  \<^item> \<open>close_fails\<close>: \<open>connection.close()\<close> raises;
  \<^item> \<open>stream_fails\<close>: \<open>_handle_stream_data\<close> or \<open>_handle_stream_reset\<close> raises;
  \<^item> \<open>connection_fails\<close>: the established connection's \<open>_process_quic_events\<close> or
    \<open>_transmit\<close> raises.
\<close>

record env =
  wire_format :: "protocol \<Rightarrow> 32 word"
  create_fails :: bool
  token_bytes :: cid
  receive_fails :: bool
  next_events :: "next_event list"
  datagrams_to_send :: "(bytes \<times> addr) list"
  wrap_fails :: bool
  verify_fails :: bool
  close_fails :: bool
  stream_fails :: bool
  connection_fails :: bool

datatype outcome = Returned | Raised

subsection \<open>Version negotiation\<close>

text \<open>
  \<open>_send_version_negotiation\<close>. \<open>packet.append(len(source_cid))\<close> raises for a length
  above 255; the handler of the function catches it after the counter was incremented,
  and nothing is sent. A failing \<open>sendto\<close> is caught by the same handler and changes no
  attribute of the listener: \<open>effects\<close> records the datagram handed to \<open>sendto\<close>.
\<close>

definition version_negotiation_packet :: "32 word set \<Rightarrow> bytes \<Rightarrow> bytes" where
  "version_negotiation_packet versions scid =
     [0x80 OR 0x70] @ pack_u32 0 @ [of_nat (length scid)] @ scid @ [0]
       @ concat (map pack_u32 (sorted_list_of_set versions))"

definition send_version_negotiation :: "addr \<Rightarrow> bytes \<Rightarrow> listener \<Rightarrow> listener" where
  "send_version_negotiation addr scid s =
     (let s1 = s\<lparr>version_negotiations := version_negotiations s + 1\<rparr> in
      if 255 < length scid then s1
      else if socket_open s1
        then s1\<lparr>effects := effects s1 @
                 [Sendto (version_negotiation_packet (supported_versions s1) scid) addr]\<rparr>
        else s1)"

subsection \<open>Removing sessions\<close>

text \<open>
  \<open>_remove_connection\<close>. Only \<open>_connections\<close> is popped. When \<open>connection.close()\<close>
  raises, the handler of the function logs it and the address mappings are left as
  they are. The popped address is a pair, so \<open>if addr:\<close> holds whenever it was found.
\<close>

definition remove_connection :: "bool \<Rightarrow> cid \<Rightarrow> listener \<Rightarrow> listener" where
  "remove_connection close_raises dest_cid s =
     (let connection = map_of (connections s) dest_cid;
          s1 = s\<lparr>connections := AList.delete dest_cid (connections s)\<rparr>;
          s2 = (case connection of None \<Rightarrow> s1
                | Some c \<Rightarrow> s1\<lparr>effects := effects s1 @ [Close c]\<rparr>)
      in if connection \<noteq> None \<and> close_raises then s2
         else
           (let addr = map_of (cid_to_addr s2) dest_cid;
                s3 = s2\<lparr>cid_to_addr := AList.delete dest_cid (cid_to_addr s2)\<rparr>
            in case addr of None \<Rightarrow> s3
               | Some a \<Rightarrow> s3\<lparr>addr_to_cid := AList.delete a (addr_to_cid s3)\<rparr>))"

text \<open>\<open>_remove_pending_connection\<close>.\<close>

definition remove_pending_connection :: "cid \<Rightarrow> listener \<Rightarrow> listener" where
  "remove_pending_connection dest_cid s =
     (let s1 = s\<lparr>pending_connections := AList.delete dest_cid (pending_connections s)\<rparr>;
          addr = map_of (cid_to_addr s1) dest_cid;
          s2 = s1\<lparr>cid_to_addr := AList.delete dest_cid (cid_to_addr s1)\<rparr>
      in case addr of None \<Rightarrow> s2
         | Some a \<Rightarrow> s2\<lparr>addr_to_cid := AList.delete a (addr_to_cid s2)\<rparr>)"

text \<open>\<open>_remove_connection_by_addr\<close>; \<open>if dest_cid:\<close> fails for \<open>None\<close> and for empty bytes.\<close>

definition remove_connection_by_addr :: "bool \<Rightarrow> addr \<Rightarrow> listener \<Rightarrow> listener" where
  "remove_connection_by_addr close_raises addr s =
     (case map_of (addr_to_cid s) addr of
        None \<Rightarrow> s
      | Some dest_cid \<Rightarrow> if dest_cid \<noteq> [] then remove_connection close_raises dest_cid s else s)"

subsection \<open>Transmission and promotion\<close>

text \<open>
  \<open>_transmit_for_connection\<close> without its diagnostics: every datagram is sent to
  \<open>addr\<close> (not to its own destination) if there is a socket; a failing \<open>sendto\<close> is
  caught for each datagram and changes nothing.
\<close>

definition transmit_for_connection :: "env \<Rightarrow> QuicConnection \<Rightarrow> addr \<Rightarrow> listener \<Rightarrow> listener" where
  "transmit_for_connection e quic_conn addr s =
     foldl (\<lambda>s' (datagram, dest_addr).
              if socket_open s' then s'\<lparr>effects := effects s' @ [Sendto datagram addr]\<rparr> else s')
       s (datagrams_to_send e)"

text \<open>
  The \<open>except\<close> handler of \<open>_promote_pending_connection\<close>: remove the connection, then
  count a rejection.
\<close>

definition promotion_failed :: "env \<Rightarrow> cid \<Rightarrow> listener \<Rightarrow> listener" where
  "promotion_failed e dest_cid s =
     (let s1 = remove_connection (close_fails e) dest_cid s
      in s1\<lparr>connections_rejected := connections_rejected s1 + 1\<rparr>)"

text \<open>The end of its \<open>try\<close> block: start the handler task, count an acceptance.\<close>

definition promotion_accepted :: "QUICConnection \<Rightarrow> listener \<Rightarrow> listener" where
  "promotion_accepted connection s =
     (let s1 = (if nursery s then s\<lparr>effects := effects s @ [Start_handler connection]\<rparr> else s)
      in s1\<lparr>connections_accepted := connections_accepted s1 + 1\<rparr>)"

text \<open>
  \<open>_promote_pending_connection\<close>. \<open>next(iter(self._quic_configs.keys()))\<close> raises on an
  empty dictionary. When the security verification raises, the inner handler closes the
  connection and returns; only if \<open>close()\<close> raises there does the outer handler run.
\<close>

definition promote_pending_connection ::
    "env \<Rightarrow> QuicConnection \<Rightarrow> addr \<Rightarrow> cid \<Rightarrow> listener \<Rightarrow> listener" where
  "promote_pending_connection e quic_conn addr dest_cid s0 =
     (let s = s0\<lparr>pending_connections := AList.delete dest_cid (pending_connections s0)\<rparr>
      in case quic_configs s of
           [] \<Rightarrow> promotion_failed e dest_cid s
         | (quic_version, cfg) # rest \<Rightarrow>
             if wrap_fails e then promotion_failed e dest_cid s
             else
               let connection = \<lparr>quic_connection = quic_conn, remote_addr = addr,
                                 is_initiator = False,
                                 maddr = (fst addr, snd addr, ''/'' @ quic_version)\<rparr>;
                   s1 = s\<lparr>connections := AList.update dest_cid connection (connections s)\<rparr>;
                   s2 = (if nursery s1
                         then s1\<lparr>effects := effects s1 @ [Start_tasks connection]\<rparr> else s1)
               in if security_manager s2 then
                    (let s3 = s2\<lparr>effects := effects s2 @ [Verify_peer connection]\<rparr>
                     in if verify_fails e then
                          (let s4 = s3\<lparr>effects := effects s3 @ [Close connection]\<rparr>
                           in if close_fails e then promotion_failed e dest_cid s4 else s4)
                        else promotion_accepted connection s3)
                  else promotion_accepted connection s2)"

subsection \<open>Draining the engine's events\<close>

text \<open>
  \<open>_process_quic_events\<close>, over the results of the \<open>next_event()\<close> calls still to come.
  The result says whether the function returned or raised, with the state it left.
\<close>

fun process_quic_events ::
    "env \<Rightarrow> next_event list \<Rightarrow> QuicConnection \<Rightarrow> addr \<Rightarrow> cid \<Rightarrow> listener \<Rightarrow> outcome \<times> listener" where
  "process_quic_events e [] quic_conn addr dest_cid s = (Returned, s)"
| "process_quic_events e (Next_event_raises # evs) quic_conn addr dest_cid s = (Raised, s)"
| "process_quic_events e (Event ConnectionTerminated # evs) quic_conn addr dest_cid s =
     (Returned, remove_connection (close_fails e) dest_cid s)"
| "process_quic_events e (Event HandshakeCompleted # evs) quic_conn addr dest_cid s =
     process_quic_events e evs quic_conn addr dest_cid
       (promote_pending_connection e quic_conn addr dest_cid s)"
| "process_quic_events e (Event StreamDataReceived # evs) quic_conn addr dest_cid s =
     (case map_of (connections s) dest_cid of
        None \<Rightarrow> process_quic_events e evs quic_conn addr dest_cid s
      | Some connection \<Rightarrow>
          let s1 = s\<lparr>effects := effects s @ [Stream_data connection]\<rparr>
          in if stream_fails e then (Raised, s1)
             else process_quic_events e evs quic_conn addr dest_cid s1)"
| "process_quic_events e (Event StreamReset # evs) quic_conn addr dest_cid s =
     (case map_of (connections s) dest_cid of
        None \<Rightarrow> process_quic_events e evs quic_conn addr dest_cid s
      | Some connection \<Rightarrow>
          let s1 = s\<lparr>effects := effects s @ [Stream_reset connection]\<rparr>
          in if stream_fails e then (Raised, s1)
             else process_quic_events e evs quic_conn addr dest_cid s1)"
| "process_quic_events e (Event Other_event # evs) quic_conn addr dest_cid s =
     process_quic_events e evs quic_conn addr dest_cid s"

subsection \<open>Handling a datagram for a session\<close>

text \<open>
  \<open>_route_to_connection\<close>: on any exception the connection mapped from the peer's
  \<^emph>\<open>address\<close> is removed.
\<close>

definition route_to_connection :: "env \<Rightarrow> QUICConnection \<Rightarrow> bytes \<Rightarrow> addr \<Rightarrow> listener \<Rightarrow> listener" where
  "route_to_connection e connection data addr s =
     (let s1 = s\<lparr>effects := effects s @ [Receive_datagram (quic_connection connection) data addr]\<rparr>
      in if receive_fails e \<or> connection_fails e
         then remove_connection_by_addr (close_fails e) addr s1
         else s1)"

text \<open>\<open>_handle_pending_connection\<close>.\<close>

definition handle_pending_connection ::
    "env \<Rightarrow> QuicConnection \<Rightarrow> bytes \<Rightarrow> addr \<Rightarrow> cid \<Rightarrow> listener \<Rightarrow> listener" where
  "handle_pending_connection e quic_conn data addr dest_cid s =
     (let s1 = s\<lparr>effects := effects s @ [Receive_datagram quic_conn data addr]\<rparr>
      in if receive_fails e then remove_pending_connection dest_cid s1
         else
           (case process_quic_events e (next_events e) quic_conn addr dest_cid s1 of
              (Raised, s2) \<Rightarrow> remove_pending_connection dest_cid s2
            | (Returned, s2) \<Rightarrow> transmit_for_connection e quic_conn addr s2))"

text \<open>
  The end of the \<open>try\<close> block of \<open>_handle_new_connection\<close> (\<open># Process initial
  packet\<close>) with the handler of the function: the datagram is fed to the engine of the
  session just stored, its events are drained and its datagrams transmitted; on an
  exception the handler only counts a rejection.
\<close>

definition process_initial_packet ::
    "env \<Rightarrow> QuicConnection \<Rightarrow> bytes \<Rightarrow> addr \<Rightarrow> cid \<Rightarrow> listener \<Rightarrow> listener" where
  "process_initial_packet e quic_conn data addr new_cid s1 =
     (let s2 = s1\<lparr>effects := effects s1 @ [Receive_datagram quic_conn data addr]\<rparr>
      in if receive_fails e
         then s2\<lparr>connections_rejected := connections_rejected s2 + 1\<rparr>
         else
           (case process_quic_events e (next_events e) quic_conn addr new_cid s2 of
              (Raised, s3) \<Rightarrow> s3\<lparr>connections_rejected := connections_rejected s3 + 1\<rparr>
            | (Returned, s3) \<Rightarrow> transmit_for_connection e quic_conn addr s3))"

text \<open>
  \<open>_handle_new_connection\<close>: the first configuration whose protocol has the packet's
  wire version; without one, a version negotiation is sent. An exception raised while
  the server configuration or the engine is built is counted as a rejection. Otherwise
  the session is stored in \<open>_pending_connections\<close> under a fresh connection ID, with
  both address mappings, and the packet is processed.
\<close>

definition handle_new_connection ::
    "env \<Rightarrow> bytes \<Rightarrow> addr \<Rightarrow> QUICPacketInfo \<Rightarrow> listener \<Rightarrow> listener" where
  "handle_new_connection e data addr packet_info s =
     (case find (\<lambda>(protocol, config). wire_format e protocol = version packet_info)
             (quic_configs s) of
        None \<Rightarrow> send_version_negotiation addr (source_cid packet_info) s
      | Some (protocol, config) \<Rightarrow>
          if create_fails e then s\<lparr>connections_rejected := connections_rejected s + 1\<rparr>
          else
            let new_cid = token_bytes e;
                quic_conn = \<lparr>configuration = protocol,
                   original_destination_connection_id = destination_cid packet_info\<rparr>;
                s1 = s\<lparr>pending_connections :=
                         AList.update new_cid quic_conn (pending_connections s),
                       addr_to_cid := AList.update addr new_cid (addr_to_cid s),
                       cid_to_addr := AList.update new_cid addr (cid_to_addr s)\<rparr>
            in process_initial_packet e quic_conn data addr new_cid s1)"

text \<open>\<open>_handle_short_header_packet\<close>.\<close>

definition handle_short_header_packet :: "env \<Rightarrow> bytes \<Rightarrow> addr \<Rightarrow> listener \<Rightarrow> listener" where
  "handle_short_header_packet e data addr s =
     (case map_of (addr_to_cid s) addr of
        None \<Rightarrow> s
      | Some dest_cid \<Rightarrow>
          if dest_cid \<noteq> [] then
            (case map_of (connections s) dest_cid of
               Some connection \<Rightarrow> route_to_connection e connection data addr s
             | None \<Rightarrow>
                 (case map_of (pending_connections s) dest_cid of
                    Some quic_conn \<Rightarrow> handle_pending_connection e quic_conn data addr dest_cid s
                  | None \<Rightarrow> s))
          else s)"

subsection \<open>Processing one datagram\<close>

text \<open>The two counters \<open>_process_packet\<close> updates first.\<close>

definition count_packet :: "bytes \<Rightarrow> listener \<Rightarrow> listener" where
  "count_packet data s =
     s\<lparr>packets_processed := packets_processed s + 1,
       bytes_received := bytes_received s + length data\<rparr>"

text \<open>
  \<open>_process_packet\<close>, the body run under \<open>_connection_lock\<close>. Every function it calls
  catches its own exceptions, so the outer handler (which counts \<open>invalid_packets\<close>) has
  no exception of this model to catch. \<open>_debug_quic_connection_state\<close> only prints.
\<close>

definition process_packet :: "env \<Rightarrow> bytes \<Rightarrow> addr \<Rightarrow> listener \<Rightarrow> listener" where
  "process_packet e data addr s0 =
     (let s = count_packet data s0
      in case parse_quic_packet data of
           None \<Rightarrow> handle_short_header_packet e data addr s
         | Some packet_info \<Rightarrow>
             if version packet_info = 0 then s
             else if version packet_info \<notin> supported_versions s
               then send_version_negotiation addr (source_cid packet_info) s
             else
               let dest_cid = destination_cid packet_info in
               (case map_of (connections s) dest_cid of
                  Some connection \<Rightarrow> route_to_connection e connection data addr s
                | None \<Rightarrow>
                   (case map_of (pending_connections s) dest_cid of
                      Some quic_conn \<Rightarrow>
                        handle_pending_connection e quic_conn data addr dest_cid s
                    | None \<Rightarrow>
                       (case map_of (addr_to_cid s) addr of
                          Some existing_cid \<Rightarrow>
                            (case map_of (pending_connections s) existing_cid of
                               Some quic_conn \<Rightarrow>
                                 handle_pending_connection e quic_conn data addr existing_cid s
                             | None \<Rightarrow>
                                (case map_of (connections s) existing_cid of
                                   Some connection \<Rightarrow>
                                     route_to_connection e connection data addr s
                                 | None \<Rightarrow>
                                     let s' = s\<lparr>addr_to_cid := AList.delete addr (addr_to_cid s)\<rparr>
                                     in if packet_type packet_info = 0
                                        then handle_new_connection e data addr packet_info s'
                                        else s'))
                        | None \<Rightarrow>
                            if packet_type packet_info = 0
                            then handle_new_connection e data addr packet_info s
                            else s))))"

subsection \<open>Listening, closing and statistics\<close>

text \<open>
  What the socket and address helpers do during \<open>listen\<close>: creating or binding the
  socket raises; or the socket is stored and a later helper raises; or the listener is
  bound to the given multiaddress.
\<close>

datatype listen_attempt = Socket_fails | Address_fails | Bound string

datatype listen_result = QUICListenError | Listen_returned bool

text \<open>
  \<open>close\<close>, given which connections' \<open>close()\<close> raise. It returns at once when \<open>_closed\<close>
  is already set.
\<close>

definition close :: "(cid \<Rightarrow> bool) \<Rightarrow> listener \<Rightarrow> listener" where
  "close close_raises s =
     (if closed s then s
      else
        let s1 = s\<lparr>closed := True, listening := False\<rparr>;
            s2 = foldl (\<lambda>s' c. remove_connection (close_raises c) c s') s1
                   (map fst (connections s1));
            s3 = foldl (\<lambda>s' c. remove_pending_connection c s') s2
                   (map fst (pending_connections s2));
            s4 = (if socket_open s3
                  then s3\<lparr>socket_open := False, effects := effects s3 @ [Socket_close]\<rparr>
                  else s3)
        in s4\<lparr>bound_addresses := []\<rparr>)"

text \<open>
  \<open>listen\<close>: \<open>is_quic\<close> is the result of \<open>is_quic_multiaddr(maddr)\<close>. The guard looks at
  \<open>_listening\<close> only. On an exception the listener is closed and \<open>QUICListenError\<close>
  raised.
\<close>

definition listen ::
    "bool \<Rightarrow> listen_attempt \<Rightarrow> (cid \<Rightarrow> bool) \<Rightarrow> listener \<Rightarrow> listen_result \<times> listener" where
  "listen is_quic attempt close_raises s =
     (if listening s then (QUICListenError, s)
      else if \<not> is_quic then (QUICListenError, s)
      else case attempt of
          Socket_fails \<Rightarrow> (QUICListenError, close close_raises s)
        | Address_fails \<Rightarrow>
            (QUICListenError, close close_raises (s\<lparr>socket_open := True, nursery := True\<rparr>))
        | Bound bound_maddr \<Rightarrow>
            (Listen_returned True,
             s\<lparr>socket_open := True, nursery := True, bound_addresses := [bound_maddr],
               listening := True\<rparr>))"

text \<open>\<open>is_listening\<close>.\<close>

definition is_listening :: "listener \<Rightarrow> bool" where
  "is_listening s = (listening s \<and> \<not> closed s)"

text \<open>\<open>get_stats\<close>: a dictionary from names to integers or booleans.\<close>

datatype stat_value = Int_stat nat | Bool_stat bool

definition get_stats :: "listener \<Rightarrow> (string \<times> stat_value) list" where
  "get_stats s =
     AList.update ''pending_connections'' (Int_stat (length (pending_connections s)))
       (AList.update ''active_connections'' (Int_stat (length (connections s)))
         (AList.update ''is_listening'' (Bool_stat (is_listening s))
           [(''connections_accepted'', Int_stat (connections_accepted s)),
            (''connections_rejected'', Int_stat (connections_rejected s)),
            (''version_negotiations'', Int_stat (version_negotiations s)),
            (''bytes_received'', Int_stat (bytes_received s)),
            (''packets_processed'', Int_stat (packets_processed s)),
            (''invalid_packets'', Int_stat (invalid_packets s))]))"

text \<open>
  The calls that change a listener: \<open>listen\<close>, \<open>close\<close>, and the processing of one
  received datagram. A history is a list of calls, run in order.
\<close>

datatype call =
    Listen bool listen_attempt "cid \<Rightarrow> bool"
  | Close_listener "cid \<Rightarrow> bool"
  | Process_packet env bytes addr

fun do_call :: "call \<Rightarrow> listener \<Rightarrow> listener" where
  "do_call (Listen is_quic attempt close_raises) s = snd (listen is_quic attempt close_raises s)"
| "do_call (Close_listener close_raises) s = close close_raises s"
| "do_call (Process_packet e data addr) s = process_packet e data addr s"

definition run :: "call list \<Rightarrow> listener \<Rightarrow> listener" where
  "run calls s = foldl (\<lambda>s' c. do_call c s') s calls"

subsection \<open>A header that lies inside its datagram\<close>

text \<open>
  The variable-length integer as the specification words it (section 4.1): the top two
  bits of the first byte select a width of 1, 2, 4 or 8 bytes; with these bits masked
  out of the first byte, the bytes of that width are a big-endian unsigned integer.
  The result is the value and the width, or \<open>None\<close> when the buffer is empty or shorter
  than the width. It is written from the specification, for comparison with
  \<open>decode_varint\<close>.
\<close>

definition big_endian :: "nat \<Rightarrow> bytes \<Rightarrow> nat" where
  "big_endian hi bs = foldl (\<lambda>acc b. acc * 256 + unat b) hi bs"

definition spec_varint :: "bytes \<Rightarrow> (nat \<times> nat) option" where
  "spec_varint bs =
     (case bs of
        [] \<Rightarrow> None
      | b # rest \<Rightarrow>
          let w = 2 ^ unat (drop_bit 6 b)
          in if length bs < w then None
             else Some (big_endian (unat (b AND 0x3F)) (take (w - 1) rest), w))"

text \<open>
  What it means for a parsed header to have been read inside the buffer. Every field is
  tied to the bytes of the datagram: the version is bytes 1 to 4, the packet type is
  bits 4 and 5 of byte 0, the connection IDs have the lengths their length bytes
  advertise and are the bytes that follow them, all inside the datagram. For an Initial
  packet the token-length field starts right after the source connection ID: if it is a
  complete integer of value \<open>n\<close> and width \<open>w\<close>, the token is the \<open>n\<close> bytes after it and all
  of them lie inside the datagram; if the field is cut short, the token is empty. For
  any other packet type the token is empty.
\<close>

definition header_in_buffer :: "bytes \<Rightarrow> QUICPacketInfo \<Rightarrow> bool" where
  "header_in_buffer data info =
     (let ld = unat (data ! 5); ls = unat (data ! (6 + ld)); off = 7 + ld + ls
      in off \<le> length data \<and>
         version info = be32 (take 4 (drop 1 data)) \<and>
         packet_type info = unat (drop_bit 4 (data ! 0 AND 0x30)) \<and>
         length (destination_cid info) = ld \<and>
         destination_cid info = take ld (drop 6 data) \<and>
         length (source_cid info) = ls \<and>
         source_cid info = take ls (drop (7 + ld) data) \<and>
         (if packet_type info = 0
          then (case spec_varint (drop off data) of
                  Some (n, w) \<Rightarrow>
                    off + w + n \<le> length data \<and> length (token info) = n \<and>
                    token info = take n (drop (off + w) data)
                | None \<Rightarrow> off < length data \<and> token info = [])
          else token info = []))"

subsection \<open>Effects only grow\<close>

text \<open>The later state has done everything the earlier one has, and possibly more.\<close>

definition extends :: "listener \<Rightarrow> listener \<Rightarrow> bool" where
  "extends s s' = (\<exists>xs. effects s' = effects s @ xs)"

subsection \<open>The address maps as mutual inverses\<close>

text \<open>
  The routing-consistency invariant of the specification: \<open>_addr_to_cid\<close> maps an
  address to a connection ID exactly when \<open>_cid_to_addr\<close> maps that connection ID to
  that address.
\<close>

definition consistent :: "listener \<Rightarrow> bool" where
  "consistent s =
     (\<forall>a c. (map_of (addr_to_cid s) a = Some c) = (map_of (cid_to_addr s) c = Some a))"

subsection \<open>Example inputs\<close>

text \<open>
  A client at \<open>10.0.0.1:4433\<close>, a listener configured for QUIC version 1 and bound, an
  engine that raises nothing and emits nothing, and two connection IDs that
  \<open>secrets.token_bytes(8)\<close> may return.
\<close>

definition ex_addr :: addr where
  "ex_addr = (''10.0.0.1'', 4433)"

definition ex_configs :: "(protocol \<times> 32 word list) list" where
  "ex_configs = [(''quic-v1'', [1])]"

definition ex_cid1 :: cid where
  "ex_cid1 = [1, 1, 1, 1, 1, 1, 1, 1]"

definition ex_cid2 :: cid where
  "ex_cid2 = [2, 2, 2, 2, 2, 2, 2, 2]"

definition ex_env :: env where
  "ex_env = \<lparr>wire_format = (\<lambda>p. 1), create_fails = False, token_bytes = ex_cid1,
     receive_fails = False, next_events = [], datagrams_to_send = [],
     wrap_fails = False, verify_fails = False, close_fails = False, stream_fails = False,
     connection_fails = False\<rparr>"

text \<open>
  An Initial packet and a Handshake packet of version 1, with the destination
  connection ID \<open>aa aa aa aa aa aa aa aa\<close> the client chose and an empty source
  connection ID; the Initial packet has an empty token.
\<close>

definition ex_initial :: bytes where
  "ex_initial = [0xC0, 0, 0, 0, 1, 8, 0xAA, 0xAA, 0xAA, 0xAA, 0xAA, 0xAA, 0xAA, 0xAA, 0, 0]"

definition ex_handshake :: bytes where
  "ex_handshake = [0xE0, 0, 0, 0, 1, 8, 0xAA, 0xAA, 0xAA, 0xAA, 0xAA, 0xAA, 0xAA, 0xAA, 0]"

text \<open>The listener after a successful \<open>listen\<close>, with or without a security manager.\<close>

definition ex_started :: "bool \<Rightarrow> listener" where
  "ex_started sm =
     snd (listen True (Bound ''/ip4/10.0.0.2/udp/4001/quic-v1'') (\<lambda>c. False)
            (new_listener ex_configs sm))"

text \<open>
  An Initial packet of version 1 whose token-length field starts with \<open>0x40\<close>, which
  announces a two-byte integer, and ends there.
\<close>

definition ex_truncated_varint :: bytes where
  "ex_truncated_varint = [0xC0, 0, 0, 0, 1, 0, 0, 0x40]"

text \<open>
  An Initial packet of the unsupported version \<open>0xdeadbeef\<close>, with an empty destination
  connection ID and the source connection ID \<open>05 06\<close>.
\<close>

definition ex_unsupported :: bytes where
  "ex_unsupported = [0xC0, 0xDE, 0xAD, 0xBE, 0xEF, 0, 2, 5, 6, 0]"

text \<open>A Handshake packet of version 1 addressed to the connection ID \<open>ex_cid1\<close>.\<close>

definition ex_to_cid1 :: bytes where
  "ex_to_cid1 = [0xE0, 0, 0, 0, 1, 8, 1, 1, 1, 1, 1, 1, 1, 1, 0]"

text \<open>The engine and the established wrapper the listener builds for the example client.\<close>

definition ex_engine :: QuicConnection where
  "ex_engine = \<lparr>configuration = ''quic-v1'',
      original_destination_connection_id = [0xAA, 0xAA, 0xAA, 0xAA, 0xAA, 0xAA, 0xAA, 0xAA]\<rparr>"

definition ex_connection :: QUICConnection where
  "ex_connection = \<lparr>quic_connection = ex_engine, remote_addr = ex_addr, is_initiator = False,
      maddr = (''10.0.0.1'', 4433, ''/quic-v1'')\<rparr>"

text \<open>
  Three states the listener reaches: after the client's Initial packet (a pending
  session under \<open>ex_cid1\<close>); after a second datagram on which the engine reports the
  handshake complete (the session is established); and after a third datagram on which
  the established connection raises and then its \<open>close()\<close> raises too, which pops the
  connection and leaves both address mappings behind.
\<close>

definition ex_pending :: "bool \<Rightarrow> listener" where
  "ex_pending sm = process_packet ex_env ex_initial ex_addr (ex_started sm)"

definition ex_established :: listener where
  "ex_established =
     process_packet (ex_env\<lparr>next_events := [Event HandshakeCompleted]\<rparr>) ex_handshake ex_addr
       (ex_pending False)"

definition ex_dangling :: listener where
  "ex_dangling =
     process_packet (ex_env\<lparr>receive_fails := True, close_fails := True\<rparr>) ex_handshake ex_addr
       ex_established"

text \<open>
  A listener whose one configuration supports QUIC versions 1 and 2 (\<open>0x6b3343cf\<close>),
  while its protocol \<open>quic-v1\<close> has the wire version 1; and an Initial packet of version 2.
\<close>

definition ex_started_two :: listener where
  "ex_started_two =
     snd (listen True (Bound ''/ip4/10.0.0.2/udp/4001/quic-v1'') (\<lambda>c. False)
            (new_listener [(''quic-v1'', [1, 0x6B3343CF])] False))"

definition ex_initial_v2 :: bytes where
  "ex_initial_v2 =
     [0xC0, 0x6B, 0x33, 0x43, 0xCF, 8, 0xAA, 0xAA, 0xAA, 0xAA, 0xAA, 0xAA, 0xAA, 0xAA, 0, 0]"

text \<open>
  An Initial packet of version 1 whose token-length field announces five bytes and
  which has one.
\<close>

definition ex_short_token :: bytes where
  "ex_short_token = [0xC0, 0, 0, 0, 1, 0, 0, 5, 0xAA]"

section \<open>Properties\<close>

lemmas ex_defs = ex_addr_def ex_configs_def ex_cid1_def ex_cid2_def ex_env_def ex_initial_def
  ex_handshake_def ex_started_def ex_truncated_varint_def ex_unsupported_def ex_to_cid1_def
  ex_engine_def ex_connection_def ex_started_two_def ex_initial_v2_def ex_short_token_def

lemmas parser_defs = parse_quic_packet_def parse_quic_packet_body_def read_token_def
  decode_varint_def bind_exn_def getitem_def slice_def slice_from_def unpack_u32_def be32_def

lemmas listener_defs = process_packet_def count_packet_def handle_new_connection_def
  process_initial_packet_def handle_pending_connection_def
  route_to_connection_def handle_short_header_packet_def promote_pending_connection_def
  promotion_failed_def promotion_accepted_def transmit_for_connection_def
  remove_connection_def remove_pending_connection_def remove_connection_by_addr_def
  send_version_negotiation_def version_negotiation_packet_def listen_def close_def
  new_listener_def get_supported_versions_def run_def is_listening_def

subsection \<open>The parser stays inside the buffer\<close>

lemma varint_loop_total:
  "\<forall>i\<in>set is. i < length data \<Longrightarrow> \<exists>v. varint_loop data is v0 = Inr v"
  by (induction "is" arbitrary: v0) (auto simp: bind_exn_def getitem_def)

text \<open>
  \<open>_decode_varint\<close> never raises, and the width it reports is at most what the buffer
  holds (it is 0 when the integer is cut short).
\<close>

lemma decode_varint_total:
  "\<exists>v w. decode_varint d = Inr (v, w) \<and> w \<le> length d"
proof (cases "length d < 1")
  case True
  then show ?thesis by (simp add: decode_varint_def)
next
  case False
  define fb where "fb = d ! 0"
  define lb where "lb = unat (drop_bit 6 (fb AND 0xC0))"
  have g0: "getitem d 0 = Inr fb"
    using False by (simp add: getitem_def fb_def)
  consider "lb = 0" | "lb = 1" | "lb = 2" | "lb \<noteq> 0 \<and> lb \<noteq> 1 \<and> lb \<noteq> 2" by blast
  then show ?thesis
  proof cases
    case 1
    then show ?thesis
      using False g0 unfolding decode_varint_def bind_exn_def Let_def lb_def
      by (simp add: Suc_le_eq)
  next
    case 2
    then show ?thesis
      using False g0 unfolding decode_varint_def bind_exn_def Let_def lb_def
      by (simp add: getitem_def)
  next
    case 3
    then show ?thesis
      using False g0 unfolding decode_varint_def bind_exn_def Let_def lb_def
      by (simp add: getitem_def)
  next
    case 4
    show ?thesis
    proof (cases "length d < 8")
      case True
      then show ?thesis
        using False g0 4 unfolding decode_varint_def bind_exn_def Let_def lb_def by simp
    next
      case long: False
      have "\<forall>i\<in>set [1..<8]. i < length d" using long by auto
      then obtain v where "varint_loop d [1..<8] (push_bit 56 (unat (fb AND 0x3F))) = Inr v"
        using varint_loop_total by blast
      then show ?thesis
        using False g0 4 long unfolding decode_varint_def bind_exn_def Let_def lb_def by simp
    qed
  qed
qed

text \<open>Reading the token never raises, and a token it returns lies inside the datagram.\<close>

lemma read_token_total:
  "\<exists>r. read_token data off = Inr r \<and>
     (case r of None \<Rightarrow> True
      | Some t \<Rightarrow> off + 1 \<le> length data \<and>
          (\<exists>off'. off \<le> off' \<and> off' + length t \<le> length data \<and>
             t = take (length t) (drop off' data)))"
proof -
  obtain v w where dv: "decode_varint (slice_from data off) = Inr (v, w)"
    using decode_varint_total by blast
  show ?thesis
  proof (cases "length data < off + 1 \<or> length data < off + w + v")
    case True
    then show ?thesis
      using dv by (auto simp: read_token_def bind_exn_def Let_def)
  next
    case False
    then have r: "read_token data off = Inr (Some (slice data (off + w) (off + w + v)))"
      using dv by (auto simp: read_token_def bind_exn_def Let_def)
    have l: "length (slice data (off + w) (off + w + v)) = v"
      using False by (auto simp: slice_def min_def)
    show ?thesis
      unfolding r using False l
      by (auto simp: slice_def intro!: exI[of _ "off + w"])
  qed
qed

text \<open>
  Truncated token bytes are caught: when the token-length integer is complete and
  fewer token bytes follow than it announces, no token is returned.
\<close>

lemma read_token_truncated_bytes:
  assumes "decode_varint (slice_from data off) = Inr (n, w)"
    and "length data < off + w + n"
  shows "read_token data off = Inr None"
  using assms by (simp add: read_token_def bind_exn_def Let_def)

text \<open>
  \<open>_decode_varint\<close> computes the integer of the specification where the field is
  complete, and \<open>(0, 0)\<close> where it is empty or cut short.
\<close>

lemma shift_or_byte: "push_bit 8 (a::nat) OR unat (b::byte) = a * 256 + unat b"
proof -
  have "push_bit 8 a + unat b = push_bit 8 a OR unat b"
  proof (rule disjunctive_add)
    fix n
    show "\<not> bit (push_bit 8 a) n \<or> \<not> bit (unat b) n"
      by (cases "n < 8") (auto simp: bit_simps dest: bit_imp_le_length)
  qed
  then show ?thesis by (simp add: push_bit_eq_mult)
qed

lemma big_endian_Nil [simp]: "big_endian hi [] = hi"
  by (simp add: big_endian_def)

lemma big_endian_Cons [simp]:
  "big_endian hi (b # bs) = big_endian (push_bit 8 hi OR unat b) bs"
  by (simp add: big_endian_def shift_or_byte)

lemma top_bits: "unat (drop_bit 6 (b AND 0xC0)) = unat (drop_bit 6 (b :: byte))"
proof -
  have "drop_bit 6 (b AND 0xC0) = drop_bit 6 b"
  proof (rule bit_word_eqI)
    fix n assume "n < LENGTH(8)"
    show "bit (drop_bit 6 (b AND 0xC0)) n = bit (drop_bit 6 b) n"
    proof (cases "n < 2")
      case True
      then consider "n = 0" | "n = 1" by arith
      then show ?thesis by cases (simp_all add: bit_simps)
    next
      case False
      then show ?thesis by (auto simp: bit_simps dest: bit_imp_le_length)
    qed
  qed
  then show ?thesis by simp
qed

lemma top_bits_cases:
  "unat (drop_bit 6 (b :: byte)) = 0 \<or> unat (drop_bit 6 b) = 1 \<or>
   unat (drop_bit 6 b) = 2 \<or> unat (drop_bit 6 b) = 3"
proof -
  have "unat (drop_bit 6 b) = unat b div 2 ^ 6"
    by (simp add: drop_bit_eq_div unat_div)
  moreover have "unat b < 256"
    using unsigned_less[of b, where 'a = nat] by simp
  ultimately have "unat (drop_bit 6 b) < 4" by simp
  then show ?thesis by arith
qed


lemma take_1: "xs \<noteq> [] \<Longrightarrow> take (Suc 0) xs = [xs ! 0]"
  by (cases xs) simp_all

lemma decode_varint_spec:
  "decode_varint bs = Inr (case spec_varint bs of None \<Rightarrow> (0, 0) | Some r \<Rightarrow> r)"
proof (cases bs)
  case Nil
  then show ?thesis by (simp add: decode_varint_def spec_varint_def)
next
  case (Cons b rest)
  note tb = top_bits[of b]
  from top_bits_cases[of b] show ?thesis
  proof (elim disjE)
    assume w: "unat (drop_bit 6 b) = 0"
    then show ?thesis
      using Cons tb
      by (simp add: decode_varint_def spec_varint_def bind_exn_def getitem_def Let_def)
  next
    assume w: "unat (drop_bit 6 b) = 1"
    show ?thesis
    proof (cases "length bs < 2")
      case True
      then show ?thesis
        using Cons tb w
        by (simp add: decode_varint_def spec_varint_def bind_exn_def getitem_def Let_def)
    next
      case False
      then obtain b1 more where r: "rest = b1 # more"
        using Cons by (cases rest) auto
      show ?thesis
        using Cons tb w False
        unfolding r
        by (simp add: decode_varint_def spec_varint_def bind_exn_def getitem_def Let_def
              push_bit_or ac_simps)
    qed
  next
    assume w: "unat (drop_bit 6 b) = 2"
    show ?thesis
    proof (cases "length bs < 4")
      case True
      then show ?thesis
        using Cons tb w
        by (simp add: decode_varint_def spec_varint_def bind_exn_def getitem_def Let_def)
    next
      case False
      then obtain b1 b2 b3 more where r: "rest = b1 # b2 # b3 # more"
        using Cons by (cases rest; cases "tl rest"; cases "tl (tl rest)") auto
      show ?thesis
        using Cons tb w False
        unfolding r
        by (simp add: decode_varint_def spec_varint_def bind_exn_def getitem_def Let_def
              push_bit_or ac_simps)
    qed
  next
    assume w: "unat (drop_bit 6 b) = 3"
    show ?thesis
    proof (cases "length bs < 8")
      case True
      then show ?thesis
        using Cons tb w
        by (simp add: decode_varint_def spec_varint_def bind_exn_def getitem_def Let_def)
    next
      case False
      then obtain b1 b2 b3 b4 b5 b6 b7 more where
        r: "rest = b1 # b2 # b3 # b4 # b5 # b6 # b7 # more"
        using Cons
        by (cases rest; cases "tl rest"; cases "tl (tl rest)"; cases "tl (tl (tl rest))";
            cases "tl (tl (tl (tl rest)))"; cases "tl (tl (tl (tl (tl rest))))";
            cases "tl (tl (tl (tl (tl (tl rest)))))") auto
      have u: "[Suc 0..<8] = [1, 2, 3, 4, 5, 6, 7]"
        by (simp add: upt_rec)
      show ?thesis
        using Cons tb w False
        unfolding r
        by (simp add: decode_varint_def spec_varint_def bind_exn_def getitem_def Let_def
              u push_bit_or ac_simps)
    qed
  qed
qed

text \<open>Reading the token, in terms of the integer the datagram holds.\<close>

lemma read_token_spec:
  "read_token data off =
     Inr (if length data < off + 1 then None
          else case spec_varint (drop off data) of
                 None \<Rightarrow> Some []
               | Some (n, w) \<Rightarrow>
                   if length data < off + w + n then None
                   else Some (take n (drop (off + w) data)))"
  by (cases "spec_varint (drop off data)")
     (auto simp: read_token_def decode_varint_spec bind_exn_def Let_def slice_def slice_from_def)

lemma parse_body_total:
  "parse_quic_packet_body data = Inr None \<or>
   (\<exists>info. parse_quic_packet_body data = Inr (Some info) \<and> header_in_buffer data info)"
proof -
  define ld where "ld = unat (data ! 5)"
  define ls where "ls = unat (data ! (6 + ld))"
  define off where "off = 7 + ld + ls"
  show ?thesis
  proof (cases "length data < off \<or> data ! 0 AND 0x80 = 0")
    case True
    then show ?thesis
      unfolding parse_quic_packet_body_def bind_exn_def Let_def ld_def ls_def off_def
      by (auto simp: getitem_def unpack_u32_def slice_def)
  next
    case False
    show ?thesis
    proof (cases "unat (drop_bit 4 (data ! 0 AND 0x30)) = 0")
      case nz: False
      then show ?thesis
        using False
        unfolding parse_quic_packet_body_def bind_exn_def Let_def ld_def ls_def off_def
          header_in_buffer_def
        by (auto simp: getitem_def unpack_u32_def slice_def min_def)
    next
      case True
      show ?thesis
      proof (cases "length data < off + 1")
        case short: True
        then show ?thesis
          using False True
          unfolding parse_quic_packet_body_def bind_exn_def Let_def ld_def ls_def off_def
          by (auto simp: getitem_def unpack_u32_def slice_def min_def read_token_spec)
      next
        case long: False
        show ?thesis
        proof (cases "spec_varint (drop off data)")
          case None
          then show ?thesis
            using False True long
            unfolding parse_quic_packet_body_def bind_exn_def Let_def ld_def ls_def off_def
              header_in_buffer_def
            by (auto simp: getitem_def unpack_u32_def slice_def min_def read_token_spec)
        next
          case (Some nw)
          obtain n w where nw: "nw = (n, w)" by (cases nw)
          show ?thesis
          proof (cases "length data < off + w + n")
            case True2: True
            then show ?thesis
              using False True long Some nw
              unfolding parse_quic_packet_body_def bind_exn_def Let_def ld_def ls_def off_def
              by (auto simp: getitem_def unpack_u32_def slice_def min_def read_token_spec)
          next
            case False2: False
            then show ?thesis
              using False True long Some nw
              unfolding parse_quic_packet_body_def bind_exn_def Let_def ld_def ls_def off_def
                header_in_buffer_def
              by (auto simp: getitem_def unpack_u32_def slice_def min_def read_token_spec)
          qed
        qed
      qed
    qed
  qed
qed

text \<open>
  Claim C8 (parser safety). For every byte string, no exception is raised inside
  \<open>parse_quic_packet\<close> (so its handler is never needed), and the result is either
  \<open>None\<close> or a header read inside the buffer (\<open>header_in_buffer\<close>): the destination and
  source connection IDs have the lengths their length bytes advertise, the token of an
  Initial packet has the length its token-length field advertises (and is empty when
  that field is cut short, or the packet is not an Initial), each is the run of bytes
  of the datagram at its place, and the three lengths with the seven bytes of fixed
  overhead sum to at most the length of the datagram.
\<close>

theorem parse_quic_packet_safety:
  "(\<exists>r. parse_quic_packet_body data = Inr r) \<and>
   (parse_quic_packet data = None \<or>
    (\<exists>info. parse_quic_packet data = Some info \<and> header_in_buffer data info \<and>
       7 + length (destination_cid info) + length (source_cid info) + length (token info)
         \<le> length data))"
proof -
  have "7 + length (destination_cid info) + length (source_cid info) + length (token info)
         \<le> length data" if "header_in_buffer data info" for info
    using that
    by (auto simp: header_in_buffer_def Let_def split: if_splits option.splits)
  then show ?thesis
    using parse_body_total[of data] by (auto simp: parse_quic_packet_def)
qed

text \<open>
  A datagram whose token is shorter than its token-length field announces is refused:
  \<open>c0 00 00 00 01 00 00 05 aa\<close> announces five token bytes and has one.
\<close>

lemma parse_short_token_refused: "parse_quic_packet ex_short_token = None"
  by (simp add: ex_defs parser_defs)

text \<open>
  Claim C4 (a truncated token length gives \<open>None\<close>) fails on the code. The eight bytes
  \<open>c0 00 00 00 01 00 00 40\<close> are an Initial packet whose token-length integer announces
  two bytes and has one. \<open>_decode_varint\<close> answers \<open>(0, 0)\<close> for the truncated integer,
  \<open>parse_quic_packet\<close> takes that for a token of length 0 read from 0 bytes, and
  returns a header.
\<close>

theorem parse_truncated_token_length_returns_header:
  "decode_varint (slice_from ex_truncated_varint 7) = Inr (0, 0) \<and>
   parse_quic_packet ex_truncated_varint =
     Some \<lparr>version = 1, destination_cid = [], source_cid = [], packet_type = 0, token = []\<rparr>"
  by (simp add: ex_defs parser_defs)

subsection \<open>Version negotiation\<close>

text \<open>\<open>struct.pack("!I", v)\<close> is the big-endian form: unpacking it gives \<open>v\<close> back.\<close>

lemma be32_pack_u32: "be32 (pack_u32 v) = v"
proof (rule bit_word_eqI)
  fix n assume n: "n < LENGTH(32)"
  consider "n < 8" | "8 \<le> n \<and> n < 16" | "16 \<le> n \<and> n < 24" | "24 \<le> n \<and> n < 32"
    using n by fastforce
  then show "bit (be32 (pack_u32 v)) n = bit v n"
  proof cases
    case 1 then show ?thesis by (simp add: be32_def pack_u32_def bit_simps)
  next
    case 2 then show ?thesis by (auto simp: be32_def pack_u32_def bit_simps)
  next
    case 3 then show ?thesis by (auto simp: be32_def pack_u32_def bit_simps)
  next
    case 4 then show ?thesis by (auto simp: be32_def pack_u32_def bit_simps)
  qed
qed

text \<open>A source connection ID the parser returns fits the one length byte it came with.\<close>

lemma parsed_source_cid_length:
  assumes "parse_quic_packet data = Some info"
  shows "length (source_cid info) \<le> 255"
proof -
  from assms parse_body_total[of data] have "header_in_buffer data info"
    by (auto simp: parse_quic_packet_def)
  then have "length (source_cid info) = unat (data ! (6 + unat (data ! 5)))"
    unfolding header_in_buffer_def Let_def by blast
  moreover have "unat (b :: byte) \<le> 255" for b
    using unsigned_less[of b, where 'a = nat] by simp
  ultimately show ?thesis by simp
qed

text \<open>
  Claim C5, amended by the condition that the listener has its socket (layout of the
  version-negotiation datagram). Let a datagram parse to a
  header whose version is neither 0 nor supported, on a listener that has its socket.
  Then processing it changes the packet counters, adds one to \<open>version_negotiations\<close>,
  and hands exactly one datagram to the socket, addressed to the sender: the byte
  \<open>0x80 | 0x70\<close>, four zero bytes, one byte holding the length of the client's source
  connection ID, that connection ID, one zero byte, and the supported versions in
  ascending order without repetition, each as four big-endian bytes. Nothing else of the
  listener changes, so the same datagram arriving again gets the same response again.
\<close>

theorem version_negotiation_layout:
  assumes "parse_quic_packet data = Some info"
    and "version info \<noteq> 0"
    and "version info \<notin> supported_versions s"
    and "socket_open s"
  shows "process_packet e data addr s =
           s\<lparr>packets_processed := packets_processed s + 1,
             bytes_received := bytes_received s + length data,
             version_negotiations := version_negotiations s + 1,
             effects := effects s @
               [Sendto ([0x80 OR 0x70, 0, 0, 0, 0, of_nat (length (source_cid info))]
                          @ source_cid info @ [0]
                          @ concat (map pack_u32 (sorted_list_of_set (supported_versions s))))
                  addr]\<rparr>
         \<and> unat (of_nat (length (source_cid info)) :: byte) = length (source_cid info)
         \<and> sorted (sorted_list_of_set (supported_versions s))
         \<and> distinct (sorted_list_of_set (supported_versions s))
         \<and> set (sorted_list_of_set (supported_versions s)) = supported_versions s
         \<and> (\<forall>v. length (pack_u32 v) = 4 \<and> be32 (pack_u32 v) = v)
         \<and> effects (process_packet e' data addr (process_packet e data addr s)) =
             effects s @ replicate 2
               (Sendto ([0x80 OR 0x70, 0, 0, 0, 0, of_nat (length (source_cid info))]
                          @ source_cid info @ [0]
                          @ concat (map pack_u32 (sorted_list_of_set (supported_versions s))))
                  addr)"
proof -
  have len: "length (source_cid info) \<le> 255"
    using assms(1) by (rule parsed_source_cid_length)
  have step: "process_packet e0 data addr s0 =
           s0\<lparr>packets_processed := packets_processed s0 + 1,
             bytes_received := bytes_received s0 + length data,
             version_negotiations := version_negotiations s0 + 1,
             effects := effects s0 @
               [Sendto ([0x80 OR 0x70, 0, 0, 0, 0, of_nat (length (source_cid info))]
                          @ source_cid info @ [0]
                          @ concat (map pack_u32 (sorted_list_of_set (supported_versions s0))))
                  addr]\<rparr>"
    if "version info \<notin> supported_versions s0" "socket_open s0" for e0 s0
    using assms(1,2) that len
    by (simp add: process_packet_def count_packet_def send_version_negotiation_def
          version_negotiation_packet_def Let_def pack_u32_def)
  have first: "process_packet e data addr s = s\<lparr>packets_processed := packets_processed s + 1,
             bytes_received := bytes_received s + length data,
             version_negotiations := version_negotiations s + 1,
             effects := effects s @
               [Sendto ([0x80 OR 0x70, 0, 0, 0, 0, of_nat (length (source_cid info))]
                          @ source_cid info @ [0]
                          @ concat (map pack_u32 (sorted_list_of_set (supported_versions s))))
                  addr]\<rparr>"
    using assms(3,4) by (rule step)
  have second: "effects (process_packet e' data addr (process_packet e data addr s)) =
             effects s @ replicate 2
               (Sendto ([0x80 OR 0x70, 0, 0, 0, 0, of_nat (length (source_cid info))]
                          @ source_cid info @ [0]
                          @ concat (map pack_u32 (sorted_list_of_set (supported_versions s))))
                  addr)"
    unfolding first using assms(3,4)
    by (subst step) (simp_all add: numeral_2_eq_2)
  have byte: "unat (of_nat (length (source_cid info)) :: byte) = length (source_cid info)"
    using len by (simp add: unat_of_nat)
  have packs: "\<forall>v. length (pack_u32 v) = 4 \<and> be32 (pack_u32 v) = v"
    by (simp add: be32_pack_u32) (simp add: pack_u32_def)
  show ?thesis
    using first second byte packs by simp
qed

text \<open>
  The theorem at the Initial packet of version \<open>0xdeadbeef\<close> sent to the example
  listener, which supports version 1 only: the response is
  \<open>f0 00 00 00 00 02 05 06 00 00 00 00 01\<close>, and no session is created.
\<close>

theorem version_negotiation_layout_witness:
  "parse_quic_packet ex_unsupported =
     Some \<lparr>version = 0xDEADBEEF, destination_cid = [], source_cid = [5, 6], packet_type = 0,
           token = []\<rparr> \<and>
   effects (process_packet ex_env ex_unsupported ex_addr (ex_started False)) =
     [Sendto [0xF0, 0, 0, 0, 0, 2, 5, 6, 0, 0, 0, 0, 1] ex_addr] \<and>
   version_negotiations (process_packet ex_env ex_unsupported ex_addr (ex_started False)) = 1 \<and>
   pending_connections (process_packet ex_env ex_unsupported ex_addr (ex_started False)) = []"
proof -
  have p: "parse_quic_packet ex_unsupported =
     Some \<lparr>version = 0xDEADBEEF, destination_cid = [], source_cid = [5, 6], packet_type = 0,
           token = []\<rparr>"
    by (simp add: ex_defs parser_defs)
  have v: "version \<lparr>version = 0xDEADBEEF, destination_cid = [], source_cid = [5, 6],
      packet_type = 0, token = []\<rparr> \<noteq> 0"
    by simp
  have u: "version \<lparr>version = 0xDEADBEEF, destination_cid = [], source_cid = [5, 6],
      packet_type = 0, token = []\<rparr> \<notin> supported_versions (ex_started False)"
    by (simp add: ex_defs listener_defs)
  have o: "socket_open (ex_started False)"
    by (simp add: ex_defs listener_defs)
  show ?thesis
    using p version_negotiation_layout[OF p v u o, of ex_env ex_addr ex_env]
    by (simp add: ex_defs listener_defs pack_u32_def)
qed

text \<open>
  Claim C5 as it is written, for every triggering packet, fails on a listener without
  a socket. After \<open>close()\<close> the socket is \<open>None\<close>; a datagram received before and
  processed after it, with the unsupported version \<open>0xdeadbeef\<close>, is counted in
  \<open>version_negotiations\<close> and nothing is sent: \<open>_send_version_negotiation\<close> sends only
  under \<open>if self._socket:\<close>.
\<close>

theorem version_negotiation_without_socket:
  "parse_quic_packet ex_unsupported =
     Some \<lparr>version = 0xDEADBEEF, destination_cid = [], source_cid = [5, 6], packet_type = 0,
           token = []\<rparr> \<and>
   0xDEADBEEF \<notin> supported_versions (close (\<lambda>c. False) (ex_started False)) \<and>
   effects (close (\<lambda>c. False) (ex_started False)) = [Socket_close] \<and>
   effects (process_packet ex_env ex_unsupported ex_addr
      (close (\<lambda>c. False) (ex_started False))) = [Socket_close] \<and>
   version_negotiations (process_packet ex_env ex_unsupported ex_addr
      (close (\<lambda>c. False) (ex_started False))) = 1"
  by (simp add: ex_defs listener_defs parser_defs Let_def)

subsection \<open>A closed listener stays closed\<close>

lemma closed_remove_connection [simp]: "closed (remove_connection b c s) = closed s"
  by (simp add: remove_connection_def Let_def split: option.splits)

lemma closed_remove_pending_connection [simp]:
  "closed (remove_pending_connection c s) = closed s"
  by (simp add: remove_pending_connection_def Let_def split: option.splits)

lemma closed_remove_connection_by_addr [simp]:
  "closed (remove_connection_by_addr b a s) = closed s"
  by (simp add: remove_connection_by_addr_def split: option.splits)

lemma closed_send_version_negotiation [simp]:
  "closed (send_version_negotiation a scid s) = closed s"
  by (simp add: send_version_negotiation_def Let_def)

lemma closed_transmit_for_connection [simp]:
  "closed (transmit_for_connection e q a s) = closed s"
proof -
  have "closed (foldl (\<lambda>s' (datagram, dest_addr).
              if socket_open s' then s'\<lparr>effects := effects s' @ [Sendto datagram a]\<rparr> else s')
       s ds) = closed s" for ds
    by (induction ds arbitrary: s) (auto split: prod.splits)
  then show ?thesis by (simp add: transmit_for_connection_def)
qed

lemma closed_promote_pending_connection [simp]:
  "closed (promote_pending_connection e q a c s) = closed s"
  by (simp add: promote_pending_connection_def promotion_failed_def promotion_accepted_def
        Let_def split: list.splits prod.splits)

lemma closed_process_quic_events [simp]:
  "closed (snd (process_quic_events e evs q a c s)) = closed s"
  by (induction e evs q a c s rule: process_quic_events.induct)
     (simp_all add: Let_def split: option.splits)

lemma closed_route_to_connection [simp]:
  "closed (route_to_connection e conn d a s) = closed s"
  by (simp add: route_to_connection_def Let_def)

lemma closed_handle_pending_connection [simp]:
  "closed (handle_pending_connection e q d a c s) = closed s"
  by (auto simp: handle_pending_connection_def Let_def split: prod.splits outcome.splits
        dest: arg_cong[where f = "\<lambda>p. closed (snd p)"])

lemma closed_process_initial_packet [simp]:
  "closed (process_initial_packet e q d a c s) = closed s"
  by (auto simp: process_initial_packet_def Let_def split: prod.splits outcome.splits
        dest: arg_cong[where f = "\<lambda>p. closed (snd p)"])

lemma closed_handle_new_connection [simp]:
  "closed (handle_new_connection e d a info s) = closed s"
  by (simp add: handle_new_connection_def Let_def split: option.splits prod.splits)

lemma closed_handle_short_header_packet [simp]:
  "closed (handle_short_header_packet e d a s) = closed s"
  by (simp add: handle_short_header_packet_def split: option.splits)

lemma closed_process_packet [simp]: "closed (process_packet e d a s) = closed s"
  by (simp add: process_packet_def count_packet_def Let_def split: option.splits)

lemma closed_close [simp]: "closed (close cr s)"
proof -
  have a: "closed (foldl (\<lambda>s' c. remove_connection (cr c) c s') s1 cs) = closed s1" for s1 cs
    by (induction cs arbitrary: s1) auto
  have b: "closed (foldl (\<lambda>s' c. remove_pending_connection c s') s1 cs) = closed s1" for s1 cs
    by (induction cs arbitrary: s1) auto
  show ?thesis
    by (simp add: close_def Let_def a b)
qed

lemma closed_listen: "closed s \<Longrightarrow> closed (snd (listen q att cr s))"
  by (simp add: listen_def split: listen_attempt.splits)

lemma closed_do_call: "closed s \<Longrightarrow> closed (do_call c s)"
  by (cases c) (simp_all add: closed_listen)

lemma closed_run: "closed s \<Longrightarrow> closed (run calls s)"
  unfolding run_def by (induction calls arbitrary: s) (simp_all add: closed_do_call)

text \<open>\<open>close\<close> on a listener that was not closed clears \<open>_listening\<close>.\<close>

lemma close_clears_listening: "\<not> closed s \<Longrightarrow> \<not> listening (close cr s)"
proof -
  have a: "listening (foldl (\<lambda>s' c. remove_connection (cr c) c s') s1 cs) = listening s1"
    for s1 cs
    by (induction cs arbitrary: s1)
       (auto simp: remove_connection_def Let_def split: option.splits)
  have b: "listening (foldl (\<lambda>s' c. remove_pending_connection c s') s1 cs) = listening s1"
    for s1 cs
    by (induction cs arbitrary: s1)
       (auto simp: remove_pending_connection_def Let_def split: option.splits)
  show "\<not> closed s \<Longrightarrow> \<not> listening (close cr s)"
    by (simp add: close_def Let_def a b)
qed

text \<open>
  Claim C10. After \<open>close()\<close>, whatever calls follow (\<open>listen\<close>, \<open>close\<close>, datagrams being
  processed), \<open>is_listening()\<close> is false and so is the \<open>is_listening\<close> entry of
  \<open>get_stats()\<close>. This holds although a \<open>listen\<close> that follows the first \<open>close()\<close> of a
  listener passes the guard, returns \<open>True\<close> and sets \<open>_listening\<close>: \<open>_closed\<close> is never
  reset.
\<close>

theorem closed_listener_never_listening:
  "\<not> is_listening (run calls (close cr s)) \<and>
   map_of (get_stats (run calls (close cr s))) ''is_listening'' = Some (Bool_stat False) \<and>
   (\<not> closed s \<longrightarrow>
      fst (listen True (Bound m) cr' (close cr s)) = Listen_returned True \<and>
      listening (snd (listen True (Bound m) cr' (close cr s))) \<and>
      \<not> is_listening (snd (listen True (Bound m) cr' (close cr s))))"
proof -
  have c: "closed (run calls (close cr s))" by (rule closed_run) simp
  show ?thesis
    using c close_clears_listening[of s cr]
    by (auto simp: is_listening_def get_stats_def listen_def closed_listen)
qed

text \<open>
  The theorem on the bound example listener: it is closed, then \<open>listen\<close> is called
  again and returns \<open>True\<close>, and \<open>is_listening()\<close> is false although \<open>_listening\<close> is set.
\<close>

theorem closed_listener_never_listening_witness:
  "\<not> closed (ex_started False) \<and>
   fst (listen True (Bound ''/ip4/10.0.0.2/udp/4002/quic-v1'') (\<lambda>c. False)
          (close (\<lambda>c. False) (ex_started False))) = Listen_returned True \<and>
   listening (snd (listen True (Bound ''/ip4/10.0.0.2/udp/4002/quic-v1'') (\<lambda>c. False)
          (close (\<lambda>c. False) (ex_started False)))) \<and>
   \<not> is_listening (run [Listen True (Bound ''/ip4/10.0.0.2/udp/4002/quic-v1'') (\<lambda>c. False)]
          (close (\<lambda>c. False) (ex_started False)))"
proof -
  have h: "\<not> closed (ex_started False)"
    by (simp add: ex_defs listener_defs)
  show ?thesis
    using h closed_listener_never_listening[of
        "[Listen True (Bound ''/ip4/10.0.0.2/udp/4002/quic-v1'') (\<lambda>c. False)]"
        "\<lambda>c. False" "ex_started False" "''/ip4/10.0.0.2/udp/4002/quic-v1''" "\<lambda>c. False"]
    by simp
qed

subsection \<open>The example states, computed\<close>

lemmas ex_state_defs = ex_defs ex_pending_def ex_established_def ex_dangling_def

lemma ex_pending_eq:
  "ex_pending sm =
     \<lparr>quic_configs = ex_configs, security_manager = sm, socket_open = True,
      bound_addresses = [''/ip4/10.0.0.2/udp/4001/quic-v1''], connections = [],
      pending_connections = [(ex_cid1, ex_engine)],
      addr_to_cid = [(ex_addr, ex_cid1)], cid_to_addr = [(ex_cid1, ex_addr)],
      supported_versions = {1},
      closed = False, listening = True, nursery = True,
      connections_accepted = 0, connections_rejected = 0, version_negotiations = 0,
      bytes_received = 16, packets_processed = 1, invalid_packets = 0,
      effects = [Receive_datagram ex_engine ex_initial ex_addr]\<rparr>"
  by (simp add: ex_state_defs listener_defs parser_defs Let_def)

lemma ex_established_eq:
  "ex_established =
     \<lparr>quic_configs = ex_configs, security_manager = False, socket_open = True,
      bound_addresses = [''/ip4/10.0.0.2/udp/4001/quic-v1''],
      connections = [(ex_cid1, ex_connection)], pending_connections = [],
      addr_to_cid = [(ex_addr, ex_cid1)], cid_to_addr = [(ex_cid1, ex_addr)],
      supported_versions = {1},
      closed = False, listening = True, nursery = True,
      connections_accepted = 1, connections_rejected = 0, version_negotiations = 0,
      bytes_received = 31, packets_processed = 2, invalid_packets = 0,
      effects = [Receive_datagram ex_engine ex_initial ex_addr,
                 Receive_datagram ex_engine ex_handshake ex_addr,
                 Start_tasks ex_connection, Start_handler ex_connection]\<rparr>"
  unfolding ex_established_def ex_pending_eq
  by (simp add: ex_state_defs listener_defs parser_defs Let_def)

lemma ex_dangling_eq:
  "ex_dangling =
     \<lparr>quic_configs = ex_configs, security_manager = False, socket_open = True,
      bound_addresses = [''/ip4/10.0.0.2/udp/4001/quic-v1''],
      connections = [], pending_connections = [],
      addr_to_cid = [(ex_addr, ex_cid1)], cid_to_addr = [(ex_cid1, ex_addr)],
      supported_versions = {1},
      closed = False, listening = True, nursery = True,
      connections_accepted = 1, connections_rejected = 0, version_negotiations = 0,
      bytes_received = 46, packets_processed = 3, invalid_packets = 0,
      effects = [Receive_datagram ex_engine ex_initial ex_addr,
                 Receive_datagram ex_engine ex_handshake ex_addr,
                 Start_tasks ex_connection, Start_handler ex_connection,
                 Receive_datagram ex_engine ex_handshake ex_addr,
                 Close ex_connection]\<rparr>"
  unfolding ex_dangling_def ex_established_eq
  by (simp add: ex_state_defs listener_defs parser_defs Let_def)

subsection \<open>Where the code leaves the routing state inconsistent\<close>

text \<open>
  Claim C1 (the two address maps are mutual inverses in every reachable state) fails on
  the code. In the state \<open>ex_dangling\<close> the address of the client is mapped to
  \<open>ex_cid1\<close>, which has no session. The client's next Initial packet takes the cleanup
  path of \<open>_process_packet\<close>, which pops the entry of \<open>_addr_to_cid\<close> only, and a new
  pending session is created under \<open>ex_cid2\<close>. Afterwards \<open>_cid_to_addr\<close> still maps
  \<open>ex_cid1\<close> to the address, while \<open>_addr_to_cid\<close> maps the address to \<open>ex_cid2\<close>.
\<close>

theorem cleanup_path_leaves_stale_cid_to_addr:
  "map_of (cid_to_addr (process_packet (ex_env\<lparr>token_bytes := ex_cid2\<rparr>) ex_initial ex_addr
      ex_dangling)) ex_cid1 = Some ex_addr \<and>
   map_of (addr_to_cid (process_packet (ex_env\<lparr>token_bytes := ex_cid2\<rparr>) ex_initial ex_addr
      ex_dangling)) ex_addr = Some ex_cid2 \<and>
   ex_cid1 \<noteq> ex_cid2"
  unfolding ex_dangling_eq
  by (simp add: ex_state_defs listener_defs parser_defs Let_def)

text \<open>
  Claim C2 (a terminated session is removed from whichever map holds it, with both
  address mappings) fails on the code. A datagram for the pending session of
  \<open>ex_pending\<close> makes the engine report \<open>ConnectionTerminated\<close>;
  \<open>_process_quic_events\<close> calls \<open>_remove_connection\<close>, which pops \<open>_connections\<close> and the
  address mappings and not \<open>_pending_connections\<close>. The session stays in the pending
  map, in no other map, and no address leads to it.
\<close>

theorem terminated_pending_session_is_leaked:
  "map_of (pending_connections (process_packet
      (ex_env\<lparr>next_events := [Event ConnectionTerminated]\<rparr>) ex_handshake ex_addr
      (ex_pending False))) ex_cid1 = Some ex_engine \<and>
   map_of (connections (process_packet
      (ex_env\<lparr>next_events := [Event ConnectionTerminated]\<rparr>) ex_handshake ex_addr
      (ex_pending False))) ex_cid1 = None \<and>
   addr_to_cid (process_packet
      (ex_env\<lparr>next_events := [Event ConnectionTerminated]\<rparr>) ex_handshake ex_addr
      (ex_pending False)) = [] \<and>
   cid_to_addr (process_packet
      (ex_env\<lparr>next_events := [Event ConnectionTerminated]\<rparr>) ex_handshake ex_addr
      (ex_pending False)) = []"
  unfolding ex_pending_eq
  by (simp add: ex_state_defs listener_defs parser_defs Let_def)

text \<open>
  Claim C6 (a failed identity verification closes the connection, keeps the handler
  away and counts a rejection) fails on the code in its last part. On a listener with a
  security manager the handshake of the pending session completes and the verification
  raises: the connection is closed and no handler task is started, but the inner
  handler returns before any counter is touched, so \<open>connections_rejected\<close> stays 0; the
  connection also stays in \<open>_connections\<close>.
\<close>

theorem failed_verification_is_not_counted:
  "connections (process_packet
      (ex_env\<lparr>next_events := [Event HandshakeCompleted], verify_fails := True\<rparr>)
      ex_handshake ex_addr (ex_pending True)) = [(ex_cid1, ex_connection)] \<and>
   effects (process_packet
      (ex_env\<lparr>next_events := [Event HandshakeCompleted], verify_fails := True\<rparr>)
      ex_handshake ex_addr (ex_pending True)) =
     effects (ex_pending True) @
       [Receive_datagram ex_engine ex_handshake ex_addr, Start_tasks ex_connection,
        Verify_peer ex_connection, Close ex_connection] \<and>
   connections_rejected (process_packet
      (ex_env\<lparr>next_events := [Event HandshakeCompleted], verify_fails := True\<rparr>)
      ex_handshake ex_addr (ex_pending True)) = 0 \<and>
   connections_accepted (process_packet
      (ex_env\<lparr>next_events := [Event HandshakeCompleted], verify_fails := True\<rparr>)
      ex_handshake ex_addr (ex_pending True)) = 0"
  unfolding ex_pending_eq
  by (simp add: ex_state_defs listener_defs parser_defs Let_def)

text \<open>
  Claim C7 (a session whose engine raises is removed with its routing entries, on every
  path) fails on the path that creates the session. The engine raises on the client's
  Initial packet: the handler of \<open>_handle_new_connection\<close> counts a rejection and
  removes nothing, so the session just stored stays in \<open>_pending_connections\<close> with both
  address mappings.
\<close>

theorem failed_new_session_is_kept:
  "pending_connections (process_packet (ex_env\<lparr>receive_fails := True\<rparr>) ex_initial ex_addr
      (ex_started False)) = [(ex_cid1, ex_engine)] \<and>
   addr_to_cid (process_packet (ex_env\<lparr>receive_fails := True\<rparr>) ex_initial ex_addr
      (ex_started False)) = [(ex_addr, ex_cid1)] \<and>
   cid_to_addr (process_packet (ex_env\<lparr>receive_fails := True\<rparr>) ex_initial ex_addr
      (ex_started False)) = [(ex_cid1, ex_addr)] \<and>
   connections_rejected (process_packet (ex_env\<lparr>receive_fails := True\<rparr>) ex_initial ex_addr
      (ex_started False)) = 1"
  by (simp add: ex_state_defs listener_defs parser_defs Let_def)

subsection \<open>Promotion\<close>

text \<open>
  What promotion does when nothing fails: exactly the entry of the pending map goes,
  the wrapper is stored under the same connection ID, one acceptance is counted, and
  the address maps and everything else stay as they are.
\<close>

lemma promotion_success_frame:
  assumes "quic_configs s = (quic_version, cfg) # rest"
    and "\<not> wrap_fails e"
    and "\<not> (security_manager s \<and> verify_fails e)"
  shows "promote_pending_connection e quic_conn addr dest_cid s =
           (let connection = \<lparr>quic_connection = quic_conn, remote_addr = addr,
                               is_initiator = False,
                               maddr = (fst addr, snd addr, ''/'' @ quic_version)\<rparr>
            in s\<lparr>pending_connections := AList.delete dest_cid (pending_connections s),
                 connections := AList.update dest_cid connection (connections s),
                 connections_accepted := connections_accepted s + 1,
                 effects := effects s
                   @ (if nursery s then [Start_tasks connection] else [])
                   @ (if security_manager s then [Verify_peer connection] else [])
                   @ (if nursery s then [Start_handler connection] else [])\<rparr>)"
  using assms
  by (simp add: promote_pending_connection_def promotion_accepted_def Let_def)

text \<open>
  What it does when building the wrapper raises (or there is no configuration): the
  outer handler runs before anything was stored, so the session is gone from the
  pending map, the two address entries of the connection ID are removed, and one
  rejection is counted.
\<close>

lemma promotion_exception_frame:
  assumes "quic_configs s = [] \<or> wrap_fails e"
    and "map_of (connections s) dest_cid = None"
  shows "promote_pending_connection e quic_conn addr dest_cid s =
           s\<lparr>pending_connections := AList.delete dest_cid (pending_connections s),
             connections := AList.delete dest_cid (connections s),
             cid_to_addr := AList.delete dest_cid (cid_to_addr s),
             addr_to_cid := (case map_of (cid_to_addr s) dest_cid of
                               None \<Rightarrow> addr_to_cid s
                             | Some a \<Rightarrow> AList.delete a (addr_to_cid s)),
             connections_rejected := connections_rejected s + 1\<rparr>"
proof -
  have "promote_pending_connection e quic_conn addr dest_cid s =
          promotion_failed e dest_cid
            (s\<lparr>pending_connections := AList.delete dest_cid (pending_connections s)\<rparr>)"
    using assms(1)
    by (cases "quic_configs s") (auto simp: promote_pending_connection_def Let_def)
  then show ?thesis
    using assms(2)
    by (cases "map_of (cid_to_addr s) dest_cid")
       (simp_all add: promotion_failed_def remove_connection_def Let_def)
qed

text \<open>
  Claim C9 (the frame of promotion: on success the session moves and an acceptance is
  counted, on failure the session is removed and a rejection is counted) fails on the
  code for the failure the security check reports. Promoting the pending session of
  \<open>ex_pending True\<close> with a verification that raises leaves the session in
  \<open>_connections\<close> and counts neither an acceptance nor a rejection.
\<close>

theorem promotion_with_failed_verification:
  "map_of (pending_connections (promote_pending_connection (ex_env\<lparr>verify_fails := True\<rparr>)
      ex_engine ex_addr ex_cid1 (ex_pending True))) ex_cid1 = None \<and>
   map_of (connections (promote_pending_connection (ex_env\<lparr>verify_fails := True\<rparr>)
      ex_engine ex_addr ex_cid1 (ex_pending True))) ex_cid1 = Some ex_connection \<and>
   connections_rejected (promote_pending_connection (ex_env\<lparr>verify_fails := True\<rparr>)
      ex_engine ex_addr ex_cid1 (ex_pending True)) = connections_rejected (ex_pending True) \<and>
   connections_accepted (promote_pending_connection (ex_env\<lparr>verify_fails := True\<rparr>)
      ex_engine ex_addr ex_cid1 (ex_pending True)) = connections_accepted (ex_pending True)"
  unfolding ex_pending_eq
  by (simp add: ex_state_defs listener_defs parser_defs Let_def)

subsection \<open>The order of routing\<close>

text \<open>Every function the listener runs on a datagram only adds to what it has done.\<close>

lemma extends_refl [simp]: "extends s s"
  by (simp add: extends_def)

lemma extends_trans: "extends s s' \<Longrightarrow> extends s' s'' \<Longrightarrow> extends s s''"
  by (auto simp: extends_def)

lemma extends_field [simp]:
  "extends s (s'\<lparr>connections_rejected := n\<rparr>) = extends s s'"
  "extends s (s'\<lparr>connections_accepted := n\<rparr>) = extends s s'"
  "extends s (s'\<lparr>pending_connections := p\<rparr>) = extends s s'"
  "extends s (s'\<lparr>connections := c\<rparr>) = extends s s'"
  "extends s (s'\<lparr>addr_to_cid := a\<rparr>) = extends s s'"
  "extends s (s'\<lparr>cid_to_addr := b\<rparr>) = extends s s'"
  "extends (s\<lparr>pending_connections := p\<rparr>) s' = extends s s'"
  by (simp_all add: extends_def)

lemma extends_append: "extends s s' \<Longrightarrow> extends s (s'\<lparr>effects := effects s' @ xs\<rparr>)"
  by (auto simp: extends_def)

lemma extends_remove_connection: "extends s (remove_connection b c s)"
  by (auto simp: remove_connection_def Let_def extends_def split: option.splits)

lemma extends_remove_pending_connection: "extends s (remove_pending_connection c s)"
  by (auto simp: remove_pending_connection_def Let_def extends_def split: option.splits)

lemma extends_remove_connection_by_addr: "extends s (remove_connection_by_addr b a s)"
  by (auto simp: remove_connection_by_addr_def extends_remove_connection split: option.splits)

lemma extends_transmit_for_connection: "extends s (transmit_for_connection e q a s)"
proof -
  have "extends s0 s \<Longrightarrow> extends s0 (foldl (\<lambda>s' (datagram, dest_addr).
              if socket_open s' then s'\<lparr>effects := effects s' @ [Sendto datagram a]\<rparr> else s')
       s ds)" for ds s0
    by (induction ds arbitrary: s) (auto split: prod.splits intro: extends_append)
  from this[OF extends_refl] show ?thesis by (simp add: transmit_for_connection_def)
qed

lemma extends_promotion_failed: "extends s (promotion_failed e c s)"
  using extends_remove_connection[of s "close_fails e" c]
  by (simp add: promotion_failed_def Let_def)

lemma extends_promotion_accepted: "extends s (promotion_accepted conn s)"
  by (simp add: promotion_accepted_def Let_def extends_append)

lemma extends_promote_pending_connection: "extends s (promote_pending_connection e q a c s)"
proof -
  define s0 where "s0 = s\<lparr>pending_connections := AList.delete c (pending_connections s)\<rparr>"
  have f: "extends s0 s' \<Longrightarrow> extends s0 (promotion_failed e c s')" for s'
    using extends_promotion_failed extends_trans by blast
  have g: "extends s0 s' \<Longrightarrow> extends s0 (promotion_accepted conn s')" for s' conn
    using extends_promotion_accepted extends_trans by blast
  have a: "extends s0 s' \<Longrightarrow> extends s0 (s'\<lparr>effects := effects s' @ xs\<rparr>)" for s' xs
    by (rule extends_append)
  have u: "extends s0 (s0\<lparr>connections := x\<rparr>)" for x
    by simp
  have "extends s0 (promote_pending_connection e q a c s)"
    unfolding promote_pending_connection_def Let_def s0_def[symmetric]
    apply (cases "quic_configs s0")
     apply (auto intro!: f g)
               apply (simp_all add: extends_def)
    done
  then show ?thesis by (simp add: s0_def)
qed

lemma extends_process_quic_events:
  "extends s (snd (process_quic_events e evs q a c s))"
proof (induction e evs q a c s rule: process_quic_events.induct)
  case (3 e evs quic_conn addr dest_cid s)
  then show ?case by (simp add: extends_remove_connection)
next
  case (4 e evs quic_conn addr dest_cid s)
  then show ?case
    using extends_promote_pending_connection extends_trans by (simp, blast)
next
  case (5 e evs quic_conn addr dest_cid s)
  then show ?case
    by (auto simp: Let_def extends_append split: option.splits
          intro: extends_trans[OF extends_append[OF extends_refl]])
next
  case (6 e evs quic_conn addr dest_cid s)
  then show ?case
    by (auto simp: Let_def extends_append split: option.splits
          intro: extends_trans[OF extends_append[OF extends_refl]])
qed simp_all

lemma route_to_connection_delivers:
  "\<exists>rest. effects (route_to_connection e c data addr s) =
      effects s @ Receive_datagram (quic_connection c) data addr # rest"
  using extends_remove_connection_by_addr[of
      "s\<lparr>effects := effects s @ [Receive_datagram (quic_connection c) data addr]\<rparr>"
      "close_fails e" addr]
  by (auto simp: route_to_connection_def Let_def extends_def)

lemma handle_pending_connection_delivers:
  "\<exists>rest. effects (handle_pending_connection e q data addr c s) =
      effects s @ Receive_datagram q data addr # rest"
proof -
  define s1 where "s1 = s\<lparr>effects := effects s @ [Receive_datagram q data addr]\<rparr>"
  have "extends s1 (handle_pending_connection e q data addr c s)"
  proof (cases "receive_fails e")
    case True
    then show ?thesis
      by (simp add: handle_pending_connection_def Let_def s1_def
            extends_remove_pending_connection)
  next
    case False
    obtain r s2 where p: "process_quic_events e (next_events e) q addr c s1 = (r, s2)"
      by (cases "process_quic_events e (next_events e) q addr c s1")
    then have "extends s1 s2"
      using extends_process_quic_events[of s1 e "next_events e" q addr c] by simp
    then show ?thesis
      using False p extends_remove_pending_connection[of s2 c]
        extends_transmit_for_connection[of s2 e q addr]
      by (cases r) (auto simp: handle_pending_connection_def Let_def s1_def[symmetric]
            intro: extends_trans)
  qed
  then show ?thesis
    by (auto simp: extends_def s1_def)
qed


lemma process_initial_packet_delivers:
  "\<exists>rest. effects (process_initial_packet e q data addr c s) =
      effects s @ Receive_datagram q data addr # rest"
proof -
  define s1 where "s1 = s\<lparr>effects := effects s @ [Receive_datagram q data addr]\<rparr>"
  have "extends s1 (process_initial_packet e q data addr c s)"
  proof (cases "receive_fails e")
    case True
    then show ?thesis
      by (simp add: process_initial_packet_def Let_def s1_def extends_def)
  next
    case False
    obtain r s2 where p: "process_quic_events e (next_events e) q addr c s1 = (r, s2)"
      by (cases "process_quic_events e (next_events e) q addr c s1")
    then have "extends s1 s2"
      using extends_process_quic_events[of s1 e "next_events e" q addr c] by simp
    then show ?thesis
      using False p extends_transmit_for_connection[of s2 e q addr]
      by (cases r) (auto simp: process_initial_packet_def Let_def s1_def[symmetric]
            extends_def)
  qed
  then show ?thesis
    by (auto simp: extends_def s1_def)
qed

lemma pending_remove_connection [simp]:
  "pending_connections (remove_connection b c s) = pending_connections s"
  by (cases "map_of (connections s) c"; cases "map_of (cid_to_addr s) c")
     (simp_all add: remove_connection_def Let_def)

lemma pending_transmit_for_connection [simp]:
  "pending_connections (transmit_for_connection e q a s) = pending_connections s"
proof -
  have "pending_connections (foldl (\<lambda>s' (datagram, dest_addr).
              if socket_open s' then s'\<lparr>effects := effects s' @ [Sendto datagram a]\<rparr> else s')
       s ds) = pending_connections s" for ds
    by (induction ds arbitrary: s) (auto split: prod.splits)
  from this[of "datagrams_to_send e"] show ?thesis
    by (simp add: transmit_for_connection_def)
qed

lemma pending_process_quic_events:
  "Event HandshakeCompleted \<notin> set evs \<Longrightarrow>
   pending_connections (snd (process_quic_events e evs q a c s)) = pending_connections s"
  by (induction e evs q a c s rule: process_quic_events.induct)
     (auto simp: Let_def split: option.splits)

lemma pending_process_initial_packet:
  assumes "Event HandshakeCompleted \<notin> set (next_events e)"
  shows "pending_connections (process_initial_packet e q d a c s) = pending_connections s"
proof -
  define s1 where "s1 = s\<lparr>effects := effects s @ [Receive_datagram q d a]\<rparr>"
  obtain r s2 where p: "process_quic_events e (next_events e) q a c s1 = (r, s2)"
    by (cases "process_quic_events e (next_events e) q a c s1")
  have "pending_connections s2 = pending_connections s1"
    using pending_process_quic_events[OF assms, of e q a c s1] p by simp
  then show ?thesis
    using p
    by (cases r; cases "receive_fails e")
       (simp_all add: process_initial_packet_def Let_def s1_def)
qed

lemma delete_absent: "map_of al k = None \<Longrightarrow> AList.delete k al = al"
  by (simp add: map_of_eq_None_iff)

text \<open>
  Claim C3, amended. Let a datagram parse to a long header whose version is non-zero
  and supported. After the packet counters are updated:
  \<^enum> if the DCID is a key of the established map, the datagram goes to that connection,
    whatever the other maps hold;
  \<^enum> else if the DCID is a key of the pending map, it goes to that pending session;
  \<^enum> else if the peer's address is mapped to a connection ID with a pending session,
    it goes to that session;
  \<^enum> else if the address is mapped to a connection ID with an established session, it
    goes to that session;
  \<^enum> else (the address is unmapped, or mapped to a connection ID with no session, a
    mapping which is deleted) a packet that is not an Initial is dropped with nothing
    else changed, and an Initial packet is passed to \<open>_handle_new_connection\<close>;
  \<^enum> when a configured protocol has the packet's wire version and building the server
    configuration and the engine does not raise, \<open>_handle_new_connection\<close> stores a new
    pending session under the connection ID drawn from \<open>secrets.token_bytes(8)\<close>, with
    both address mappings, and the first thing it then does is to hand the datagram to
    the engine of that session; unless the engine reports \<open>HandshakeCompleted\<close> on it,
    the pending map afterwards is the old one with that session added;
  \<^enum> when no configured protocol has the packet's wire version, it creates no session:
    it adds one to \<open>version_negotiations\<close> and, if the listener has its socket, sends
    one version-negotiation datagram to the peer, and changes nothing else;
  \<^enum> when a configuration is found and building raises, it creates no session: it adds
    one to \<open>connections_rejected\<close> and changes nothing else.
  In cases 1 to 4 the first thing done is to hand the datagram to the engine of the
  session named.
\<close>

theorem routing_order:
  assumes parsed: "parse_quic_packet data = Some info"
    and nonzero: "version info \<noteq> 0"
    and supported: "version info \<in> supported_versions s"
  shows
    "(\<forall>c. map_of (connections s) (destination_cid info) = Some c \<longrightarrow>
        process_packet e data addr s = route_to_connection e c data addr (count_packet data s) \<and>
        (\<exists>rest. effects (process_packet e data addr s) =
           effects s @ Receive_datagram (quic_connection c) data addr # rest))
     \<and> (\<forall>q. map_of (connections s) (destination_cid info) = None \<and>
          map_of (pending_connections s) (destination_cid info) = Some q \<longrightarrow>
        process_packet e data addr s =
          handle_pending_connection e q data addr (destination_cid info) (count_packet data s) \<and>
        (\<exists>rest. effects (process_packet e data addr s) =
           effects s @ Receive_datagram q data addr # rest))
     \<and> (\<forall>x q. map_of (connections s) (destination_cid info) = None \<and>
          map_of (pending_connections s) (destination_cid info) = None \<and>
          map_of (addr_to_cid s) addr = Some x \<and> map_of (pending_connections s) x = Some q \<longrightarrow>
        process_packet e data addr s =
          handle_pending_connection e q data addr x (count_packet data s) \<and>
        (\<exists>rest. effects (process_packet e data addr s) =
           effects s @ Receive_datagram q data addr # rest))
     \<and> (\<forall>x c. map_of (connections s) (destination_cid info) = None \<and>
          map_of (pending_connections s) (destination_cid info) = None \<and>
          map_of (addr_to_cid s) addr = Some x \<and> map_of (pending_connections s) x = None \<and>
          map_of (connections s) x = Some c \<longrightarrow>
        process_packet e data addr s = route_to_connection e c data addr (count_packet data s) \<and>
        (\<exists>rest. effects (process_packet e data addr s) =
           effects s @ Receive_datagram (quic_connection c) data addr # rest))
     \<and> (map_of (connections s) (destination_cid info) = None \<and>
          map_of (pending_connections s) (destination_cid info) = None \<and>
          (map_of (addr_to_cid s) addr = None \<or>
           (\<exists>x. map_of (addr_to_cid s) addr = Some x \<and> map_of (pending_connections s) x = None \<and>
                map_of (connections s) x = None)) \<longrightarrow>
        process_packet e data addr s =
          (if packet_type info = 0
           then handle_new_connection e data addr info
                  ((count_packet data s)\<lparr>addr_to_cid := AList.delete addr (addr_to_cid s)\<rparr>)
           else (count_packet data s)\<lparr>addr_to_cid := AList.delete addr (addr_to_cid s)\<rparr>))
     \<and> (\<forall>p cfg s'. find (\<lambda>(protocol, config). wire_format e protocol = version info)
                      (quic_configs s') = Some (p, cfg) \<and> \<not> create_fails e \<longrightarrow>
        handle_new_connection e data addr info s' =
          process_initial_packet e
            \<lparr>configuration = p, original_destination_connection_id = destination_cid info\<rparr>
            data addr (token_bytes e)
            (s'\<lparr>pending_connections := AList.update (token_bytes e)
                   \<lparr>configuration = p, original_destination_connection_id = destination_cid info\<rparr>
                   (pending_connections s'),
                 addr_to_cid := AList.update addr (token_bytes e) (addr_to_cid s'),
                 cid_to_addr := AList.update (token_bytes e) addr (cid_to_addr s')\<rparr>) \<and>
        (\<exists>rest. effects (handle_new_connection e data addr info s') =
           effects s' @ Receive_datagram
             \<lparr>configuration = p, original_destination_connection_id = destination_cid info\<rparr>
             data addr # rest) \<and>
        (Event HandshakeCompleted \<notin> set (next_events e) \<longrightarrow>
           pending_connections (handle_new_connection e data addr info s') =
             AList.update (token_bytes e)
               \<lparr>configuration = p, original_destination_connection_id = destination_cid info\<rparr>
               (pending_connections s')))
     \<and> (\<forall>s'. find (\<lambda>(protocol, config). wire_format e protocol = version info)
                  (quic_configs s') = None \<longrightarrow>
        handle_new_connection e data addr info s' =
          (if socket_open s'
           then s'\<lparr>version_negotiations := version_negotiations s' + 1,
                   effects := effects s' @
                     [Sendto ([0x80 OR 0x70, 0, 0, 0, 0, of_nat (length (source_cid info))]
                               @ source_cid info @ [0]
                               @ concat (map pack_u32
                                   (sorted_list_of_set (supported_versions s'))))
                       addr]\<rparr>
           else s'\<lparr>version_negotiations := version_negotiations s' + 1\<rparr>))
     \<and> (\<forall>p cfg s'. find (\<lambda>(protocol, config). wire_format e protocol = version info)
                      (quic_configs s') = Some (p, cfg) \<and> create_fails e \<longrightarrow>
        handle_new_connection e data addr info s' =
          s'\<lparr>connections_rejected := connections_rejected s' + 1\<rparr>)"
    (is "?established \<and> ?pending \<and> ?by_addr_pending \<and> ?by_addr_established \<and> ?unknown
         \<and> ?created \<and> ?no_config \<and> ?build_fails")
proof -
  have cs [simp]: "connections (count_packet data s) = connections s"
    "pending_connections (count_packet data s) = pending_connections s"
    "addr_to_cid (count_packet data s) = addr_to_cid s"
    "supported_versions (count_packet data s) = supported_versions s"
    "effects (count_packet data s) = effects s"
    by (simp_all add: count_packet_def)
  have un: "map_of (addr_to_cid s) addr = None \<Longrightarrow>
      (count_packet data s)\<lparr>addr_to_cid := AList.delete addr (addr_to_cid s)\<rparr> = count_packet data s"
    using delete_absent[of "addr_to_cid s" addr] by (simp add: count_packet_def)
  have rd: "\<exists>rest. effects (route_to_connection e c data addr (count_packet data s)) =
      effects s @ Receive_datagram (quic_connection c) data addr # rest" for c
    using route_to_connection_delivers[of e c data addr "count_packet data s"] by simp
  have pd: "\<exists>rest. effects (handle_pending_connection e q data addr x (count_packet data s)) =
      effects s @ Receive_datagram q data addr # rest" for q x
    using handle_pending_connection_delivers[of e q data addr x "count_packet data s"] by simp
  have established: ?established
    using parsed nonzero supported rd by (simp add: process_packet_def Let_def)
  have pending: ?pending
    using parsed nonzero supported pd by (simp add: process_packet_def Let_def)
  have by_addr_pending: ?by_addr_pending
    using parsed nonzero supported pd by (simp add: process_packet_def Let_def)
  have by_addr_established: ?by_addr_established
    using parsed nonzero supported rd by (simp add: process_packet_def Let_def)
  have unknown: ?unknown
    using parsed nonzero supported un by (auto simp: process_packet_def Let_def)
  have created: ?created
  proof (intro allI impI)
    fix p cfg and s' :: listener
    assume a: "find (\<lambda>(protocol, config). wire_format e protocol = version info)
                 (quic_configs s') = Some (p, cfg) \<and> \<not> create_fails e"
    define q where "q = \<lparr>configuration = p,
        original_destination_connection_id = destination_cid info\<rparr>"
    define stored where "stored = s'\<lparr>pending_connections :=
          AList.update (token_bytes e) q (pending_connections s'),
        addr_to_cid := AList.update addr (token_bytes e) (addr_to_cid s'),
        cid_to_addr := AList.update (token_bytes e) addr (cid_to_addr s')\<rparr>"
    have eq: "handle_new_connection e data addr info s' =
        process_initial_packet e q data addr (token_bytes e) stored"
      using a by (simp add: handle_new_connection_def Let_def q_def stored_def)
    have fed: "\<exists>rest. effects (handle_new_connection e data addr info s') =
        effects s' @ Receive_datagram q data addr # rest"
      unfolding eq
      using process_initial_packet_delivers[of e q data addr "token_bytes e" stored]
      by (simp add: stored_def)
    have kept: "Event HandshakeCompleted \<notin> set (next_events e) \<longrightarrow>
        pending_connections (handle_new_connection e data addr info s') =
          AList.update (token_bytes e) q (pending_connections s')"
      unfolding eq
      by (simp add: pending_process_initial_packet) (simp add: stored_def)
    show "handle_new_connection e data addr info s' =
          process_initial_packet e
            \<lparr>configuration = p, original_destination_connection_id = destination_cid info\<rparr>
            data addr (token_bytes e)
            (s'\<lparr>pending_connections := AList.update (token_bytes e)
                   \<lparr>configuration = p, original_destination_connection_id = destination_cid info\<rparr>
                   (pending_connections s'),
                 addr_to_cid := AList.update addr (token_bytes e) (addr_to_cid s'),
                 cid_to_addr := AList.update (token_bytes e) addr (cid_to_addr s')\<rparr>) \<and>
        (\<exists>rest. effects (handle_new_connection e data addr info s') =
           effects s' @ Receive_datagram
             \<lparr>configuration = p, original_destination_connection_id = destination_cid info\<rparr>
             data addr # rest) \<and>
        (Event HandshakeCompleted \<notin> set (next_events e) \<longrightarrow>
           pending_connections (handle_new_connection e data addr info s') =
             AList.update (token_bytes e)
               \<lparr>configuration = p, original_destination_connection_id = destination_cid info\<rparr>
               (pending_connections s'))"
      using eq fed kept unfolding q_def stored_def by blast
  qed
  have len: "length (source_cid info) \<le> 255"
    using parsed by (rule parsed_source_cid_length)
  have no_config: ?no_config
    using len
    by (simp add: handle_new_connection_def send_version_negotiation_def
          version_negotiation_packet_def Let_def pack_u32_def)
  have build_fails: ?build_fails
    by (simp add: handle_new_connection_def Let_def)
  show ?thesis
    using established pending by_addr_pending by_addr_established unknown created
      no_config build_fails
    by blast
qed

text \<open>
  Claim C3 as it is written fails in two places. (a) In the state \<open>ex_dangling\<close> the
  DCID of the client's Initial packet is in neither session map and the address has an
  entry in \<open>_addr_to_cid\<close>; there is no session behind it to route to, and a new
  pending session is created, which the claim allows only when the address has no
  entry. (b) On a listener whose configuration supports versions 1 and 2 under the
  protocol of wire version 1, an Initial packet of version 2 from an unknown client has
  a supported non-zero version, and no session is created for it.
\<close>

theorem routing_order_counterexample:
  "map_of (connections ex_dangling) [0xAA, 0xAA, 0xAA, 0xAA, 0xAA, 0xAA, 0xAA, 0xAA] = None \<and>
   map_of (pending_connections ex_dangling) [0xAA, 0xAA, 0xAA, 0xAA, 0xAA, 0xAA, 0xAA, 0xAA]
     = None \<and>
   map_of (addr_to_cid ex_dangling) ex_addr = Some ex_cid1 \<and>
   pending_connections ex_dangling = [] \<and>
   pending_connections (process_packet (ex_env\<lparr>token_bytes := ex_cid2\<rparr>) ex_initial ex_addr
      ex_dangling) = [(ex_cid2, ex_engine)] \<and>
   parse_quic_packet ex_initial_v2 =
     Some \<lparr>version = 0x6B3343CF,
           destination_cid = [0xAA, 0xAA, 0xAA, 0xAA, 0xAA, 0xAA, 0xAA, 0xAA],
           source_cid = [], packet_type = 0, token = []\<rparr> \<and>
   0x6B3343CF \<in> supported_versions ex_started_two \<and>
   connections ex_started_two = [] \<and> pending_connections ex_started_two = [] \<and>
   addr_to_cid ex_started_two = [] \<and>
   pending_connections (process_packet ex_env ex_initial_v2 ex_addr ex_started_two) = [] \<and>
   connections (process_packet ex_env ex_initial_v2 ex_addr ex_started_two) = []"
  unfolding ex_dangling_eq
  by (simp add: ex_state_defs listener_defs parser_defs Let_def)

text \<open>
  The amended claim on the example client, one datagram for each case: a packet
  addressed to \<open>ex_cid1\<close> reaches the established session and, before the handshake,
  the pending one; a packet with the client's own DCID reaches them through the
  address; from an unknown client a Handshake packet is dropped and an Initial packet
  creates the pending session \<open>ex_cid1\<close>.
\<close>

theorem routing_order_witness:
  "process_packet ex_env ex_to_cid1 ex_addr ex_established =
     route_to_connection ex_env ex_connection ex_to_cid1 ex_addr
       (count_packet ex_to_cid1 ex_established) \<and>
   process_packet ex_env ex_to_cid1 ex_addr (ex_pending False) =
     handle_pending_connection ex_env ex_engine ex_to_cid1 ex_addr ex_cid1
       (count_packet ex_to_cid1 (ex_pending False)) \<and>
   process_packet ex_env ex_handshake ex_addr (ex_pending False) =
     handle_pending_connection ex_env ex_engine ex_handshake ex_addr ex_cid1
       (count_packet ex_handshake (ex_pending False)) \<and>
   process_packet ex_env ex_handshake ex_addr ex_established =
     route_to_connection ex_env ex_connection ex_handshake ex_addr
       (count_packet ex_handshake ex_established) \<and>
   process_packet ex_env ex_handshake ex_addr (ex_started False) =
     count_packet ex_handshake (ex_started False) \<and>
   process_packet ex_env ex_initial ex_addr (ex_started False) =
     process_initial_packet ex_env ex_engine ex_initial ex_addr ex_cid1
       ((count_packet ex_initial (ex_started False))
          \<lparr>pending_connections := [(ex_cid1, ex_engine)],
           addr_to_cid := [(ex_addr, ex_cid1)], cid_to_addr := [(ex_cid1, ex_addr)]\<rparr>) \<and>
   pending_connections (process_packet ex_env ex_initial ex_addr (ex_started False)) =
     [(ex_cid1, ex_engine)] \<and>
   effects (process_packet ex_env ex_initial_v2 ex_addr ex_started_two) =
     [Sendto [0xF0, 0, 0, 0, 0, 0, 0, 0, 0, 0, 1, 0x6B, 0x33, 0x43, 0xCF] ex_addr] \<and>
   version_negotiations (process_packet ex_env ex_initial_v2 ex_addr ex_started_two) = 1 \<and>
   process_packet (ex_env\<lparr>create_fails := True\<rparr>) ex_initial ex_addr (ex_started False) =
     (count_packet ex_initial (ex_started False))\<lparr>connections_rejected := 1\<rparr>"
proof -
  have p1: "parse_quic_packet ex_to_cid1 =
      Some \<lparr>version = 1, destination_cid = ex_cid1, source_cid = [], packet_type = 2,
            token = []\<rparr>"
    by (simp add: ex_defs parser_defs)
  have p2: "parse_quic_packet ex_handshake =
      Some \<lparr>version = 1, destination_cid = [0xAA, 0xAA, 0xAA, 0xAA, 0xAA, 0xAA, 0xAA, 0xAA],
            source_cid = [], packet_type = 2, token = []\<rparr>"
    by (simp add: ex_defs parser_defs)
  have p3: "parse_quic_packet ex_initial =
      Some \<lparr>version = 1, destination_cid = [0xAA, 0xAA, 0xAA, 0xAA, 0xAA, 0xAA, 0xAA, 0xAA],
            source_cid = [], packet_type = 0, token = []\<rparr>"
    by (simp add: ex_defs parser_defs)
  have s0: "ex_started False =
     \<lparr>quic_configs = [(''quic-v1'', [1])], security_manager = False, socket_open = True,
      bound_addresses = [''/ip4/10.0.0.2/udp/4001/quic-v1''], connections = [],
      pending_connections = [], addr_to_cid = [], cid_to_addr = [],
      supported_versions = {1},
      closed = False, listening = True, nursery = True,
      connections_accepted = 0, connections_rejected = 0, version_negotiations = 0,
      bytes_received = 0, packets_processed = 0, invalid_packets = 0, effects = []\<rparr>"
    by (simp add: ex_defs listener_defs)
  have nz3: "version \<lparr>version = 1,
      destination_cid = [0xAA, 0xAA, 0xAA, 0xAA, 0xAA, 0xAA, 0xAA, 0xAA],
      source_cid = [], packet_type = 0, token = []\<rparr> \<noteq> 0"
    by simp
  have sup3: "version \<lparr>version = 1,
      destination_cid = [0xAA, 0xAA, 0xAA, 0xAA, 0xAA, 0xAA, 0xAA, 0xAA],
      source_cid = [], packet_type = 0, token = []\<rparr> \<in> supported_versions (ex_started False)"
    by (simp add: s0)
  have w1: "process_packet ex_env ex_to_cid1 ex_addr ex_established =
     route_to_connection ex_env ex_connection ex_to_cid1 ex_addr
       (count_packet ex_to_cid1 ex_established)"
    using routing_order[OF p1, of ex_established ex_env ex_addr]
    by (simp add: ex_established_eq)
  have w2: "process_packet ex_env ex_to_cid1 ex_addr (ex_pending False) =
     handle_pending_connection ex_env ex_engine ex_to_cid1 ex_addr ex_cid1
       (count_packet ex_to_cid1 (ex_pending False))"
    using routing_order[OF p1, of "ex_pending False" ex_env ex_addr]
    by (simp add: ex_pending_eq)
  have w3: "process_packet ex_env ex_handshake ex_addr (ex_pending False) =
     handle_pending_connection ex_env ex_engine ex_handshake ex_addr ex_cid1
       (count_packet ex_handshake (ex_pending False))"
    using routing_order[OF p2, of "ex_pending False" ex_env ex_addr]
    by (simp add: ex_pending_eq) (simp add: ex_defs)
  have w4: "process_packet ex_env ex_handshake ex_addr ex_established =
     route_to_connection ex_env ex_connection ex_handshake ex_addr
       (count_packet ex_handshake ex_established)"
    using routing_order[OF p2, of ex_established ex_env ex_addr]
    by (simp add: ex_established_eq) (simp add: ex_defs)
  have w5: "process_packet ex_env ex_handshake ex_addr (ex_started False) =
     count_packet ex_handshake (ex_started False)"
    using routing_order[OF p2, of "ex_started False" ex_env ex_addr]
    by (simp add: s0 count_packet_def)
  have n3: "process_packet ex_env ex_initial ex_addr (ex_started False) =
     handle_new_connection ex_env ex_initial ex_addr
       \<lparr>version = 1, destination_cid = [0xAA, 0xAA, 0xAA, 0xAA, 0xAA, 0xAA, 0xAA, 0xAA],
            source_cid = [], packet_type = 0, token = []\<rparr>
       (count_packet ex_initial (ex_started False))"
    using routing_order[OF p3, of "ex_started False" ex_env ex_addr]
    by (simp add: s0 count_packet_def)
  have c3: "handle_new_connection ex_env ex_initial ex_addr
       \<lparr>version = 1, destination_cid = [0xAA, 0xAA, 0xAA, 0xAA, 0xAA, 0xAA, 0xAA, 0xAA],
            source_cid = [], packet_type = 0, token = []\<rparr>
       (count_packet ex_initial (ex_started False)) =
     process_initial_packet ex_env ex_engine ex_initial ex_addr ex_cid1
       ((count_packet ex_initial (ex_started False))
          \<lparr>pending_connections := [(ex_cid1, ex_engine)],
           addr_to_cid := [(ex_addr, ex_cid1)], cid_to_addr := [(ex_cid1, ex_addr)]\<rparr>)"
    using routing_order[OF p3 nz3 sup3, of ex_env ex_addr,
        THEN conjunct2, THEN conjunct2, THEN conjunct2, THEN conjunct2, THEN conjunct2,
        THEN conjunct1, rule_format,
        where p = "''quic-v1''" and cfg = "[1]"
          and s' = "count_packet ex_initial (ex_started False)"]
    by (simp add: s0 count_packet_def) (simp add: ex_env_def ex_engine_def)
  have f3: "find (\<lambda>(protocol, config). wire_format ex_env protocol =
        version \<lparr>version = 1,
          destination_cid = [0xAA, 0xAA, 0xAA, 0xAA, 0xAA, 0xAA, 0xAA, 0xAA],
          source_cid = [], packet_type = 0, token = []\<rparr>)
      (quic_configs (count_packet ex_initial (ex_started False))) = Some (''quic-v1'', [1])
      \<and> \<not> create_fails ex_env"
    by (simp add: s0 count_packet_def ex_env_def)
  have h3: "Event HandshakeCompleted \<notin> set (next_events ex_env)"
    by (simp add: ex_env_def)
  note r6 = routing_order[OF p3 nz3 sup3, of ex_env ex_addr,
        THEN conjunct2, THEN conjunct2, THEN conjunct2, THEN conjunct2, THEN conjunct2,
        THEN conjunct1, THEN spec, THEN spec, THEN spec, THEN mp, OF f3]
  have k3: "pending_connections (handle_new_connection ex_env ex_initial ex_addr
       \<lparr>version = 1, destination_cid = [0xAA, 0xAA, 0xAA, 0xAA, 0xAA, 0xAA, 0xAA, 0xAA],
            source_cid = [], packet_type = 0, token = []\<rparr>
       (count_packet ex_initial (ex_started False))) = [(ex_cid1, ex_engine)]"
    using r6[THEN conjunct2, THEN conjunct2, THEN mp, OF h3]
    by (simp add: s0 count_packet_def ex_env_def ex_engine_def)
  have p4: "parse_quic_packet ex_initial_v2 =
      Some \<lparr>version = 0x6B3343CF,
            destination_cid = [0xAA, 0xAA, 0xAA, 0xAA, 0xAA, 0xAA, 0xAA, 0xAA],
            source_cid = [], packet_type = 0, token = []\<rparr>"
    by (simp add: ex_defs parser_defs)
  have s2: "ex_started_two =
     \<lparr>quic_configs = [(''quic-v1'', [1, 0x6B3343CF])], security_manager = False,
      socket_open = True,
      bound_addresses = [''/ip4/10.0.0.2/udp/4001/quic-v1''], connections = [],
      pending_connections = [], addr_to_cid = [], cid_to_addr = [],
      supported_versions = {1, 0x6B3343CF},
      closed = False, listening = True, nursery = True,
      connections_accepted = 0, connections_rejected = 0, version_negotiations = 0,
      bytes_received = 0, packets_processed = 0, invalid_packets = 0, effects = []\<rparr>"
    by (simp add: ex_defs listener_defs)
  have w7: "effects (process_packet ex_env ex_initial_v2 ex_addr ex_started_two) =
       [Sendto [0xF0, 0, 0, 0, 0, 0, 0, 0, 0, 0, 1, 0x6B, 0x33, 0x43, 0xCF] ex_addr] \<and>
     version_negotiations (process_packet ex_env ex_initial_v2 ex_addr ex_started_two) = 1"
    using routing_order[OF p4, of ex_started_two ex_env ex_addr]
    by (simp add: s2 count_packet_def) (simp add: ex_env_def pack_u32_def)
  have w8: "process_packet (ex_env\<lparr>create_fails := True\<rparr>) ex_initial ex_addr
       (ex_started False) =
     (count_packet ex_initial (ex_started False))\<lparr>connections_rejected := 1\<rparr>"
    using routing_order[OF p3, of "ex_started False" "ex_env\<lparr>create_fails := True\<rparr>" ex_addr]
    by (simp add: s0 count_packet_def) (simp add: ex_env_def)
  show ?thesis
    using w1 w2 w3 w4 w5 n3 c3 k3 w7 w8 by simp
qed

subsection \<open>What keeps the two address maps inverse\<close>

text \<open>
  The two address maps stay mutual inverses under every datagram that gets a fresh
  connection ID and does not find a mapping without a session. So the cleanup branch
  of \<open>_process_packet\<close> (and a repeated connection ID) is all that breaks the
  invariant.
\<close>

lemma unmap_inverse:
  assumes "\<forall>a c. (map_of A a = Some c) = (map_of C c = Some a)"
  shows "\<forall>a' c'. (map_of (case map_of C c of None \<Rightarrow> A | Some a \<Rightarrow> AList.delete a A) a' = Some c')
            = (map_of (AList.delete c C) c' = Some a')"
proof (cases "map_of C c")
  case None
  then have "\<forall>a. map_of A a \<noteq> Some c"
    using assms by simp
  with None assms show ?thesis
    by (simp add: delete_conv')
next
  case (Some a)
  then have ac: "map_of A a = Some c"
    using assms by blast
  have "(map_of A a' = Some c' \<and> a' \<noteq> a) = (map_of C c' = Some a' \<and> c' \<noteq> c)" for a' c'
    using assms Some ac by (metis option.inject)
  with Some show ?thesis
    by (simp add: delete_conv') metis
qed

lemma maps_remove_connection:
  "addr_to_cid (remove_connection b c s) =
     (if map_of (connections s) c \<noteq> None \<and> b then addr_to_cid s
      else (case map_of (cid_to_addr s) c of None \<Rightarrow> addr_to_cid s
            | Some a \<Rightarrow> AList.delete a (addr_to_cid s)))"
  "cid_to_addr (remove_connection b c s) =
     (if map_of (connections s) c \<noteq> None \<and> b then cid_to_addr s
      else AList.delete c (cid_to_addr s))"
  by (cases "map_of (connections s) c"; cases "map_of (cid_to_addr s) c";
      simp add: remove_connection_def Let_def)+

lemma consistent_remove_connection:
  assumes "consistent s"
  shows "consistent (remove_connection b c s)"
proof (cases "map_of (connections s) c \<noteq> None \<and> b")
  case True
  then show ?thesis
    using assms unfolding consistent_def by (simp add: maps_remove_connection)
next
  case False
  have "\<forall>a c. (map_of (addr_to_cid s) a = Some c) = (map_of (cid_to_addr s) c = Some a)"
    using assms by (simp add: consistent_def)
  from unmap_inverse[OF this, of c]
  have u: "\<forall>a' c'. (map_of (case map_of (cid_to_addr s) c of None \<Rightarrow> addr_to_cid s
                 | Some a \<Rightarrow> AList.delete a (addr_to_cid s)) a' = Some c')
            = (map_of (AList.delete c (cid_to_addr s)) c' = Some a')" .
  have m: "addr_to_cid (remove_connection b c s) =
      (case map_of (cid_to_addr s) c of None \<Rightarrow> addr_to_cid s
       | Some a \<Rightarrow> AList.delete a (addr_to_cid s))"
    "cid_to_addr (remove_connection b c s) = AList.delete c (cid_to_addr s)"
    using False by (auto simp: maps_remove_connection)
  show ?thesis
    unfolding consistent_def m by (rule u)
qed

lemma maps_remove_pending_connection:
  "addr_to_cid (remove_pending_connection c s) =
     (case map_of (cid_to_addr s) c of None \<Rightarrow> addr_to_cid s
      | Some a \<Rightarrow> AList.delete a (addr_to_cid s))"
  "cid_to_addr (remove_pending_connection c s) = AList.delete c (cid_to_addr s)"
  by (cases "map_of (cid_to_addr s) c"; simp add: remove_pending_connection_def Let_def)+

lemma consistent_remove_pending_connection:
  assumes "consistent s"
  shows "consistent (remove_pending_connection c s)"
proof -
  have "\<forall>a c. (map_of (addr_to_cid s) a = Some c) = (map_of (cid_to_addr s) c = Some a)"
    using assms by (simp add: consistent_def)
  from unmap_inverse[OF this, of c] show ?thesis
    unfolding consistent_def maps_remove_pending_connection .
qed

lemma consistent_remove_connection_by_addr:
  "consistent s \<Longrightarrow> consistent (remove_connection_by_addr b a s)"
  by (auto simp: remove_connection_by_addr_def consistent_remove_connection split: option.splits)

lemma maps_transmit_for_connection [simp]:
  "addr_to_cid (transmit_for_connection e q a s) = addr_to_cid s"
  "cid_to_addr (transmit_for_connection e q a s) = cid_to_addr s"
proof -
  have "addr_to_cid (foldl (\<lambda>s' (datagram, dest_addr).
              if socket_open s' then s'\<lparr>effects := effects s' @ [Sendto datagram a]\<rparr> else s')
       s ds) = addr_to_cid s \<and> cid_to_addr (foldl (\<lambda>s' (datagram, dest_addr).
              if socket_open s' then s'\<lparr>effects := effects s' @ [Sendto datagram a]\<rparr> else s')
       s ds) = cid_to_addr s" for ds
    by (induction ds arbitrary: s) (auto split: prod.splits)
  from this[of "datagrams_to_send e"]
  show "addr_to_cid (transmit_for_connection e q a s) = addr_to_cid s"
    "cid_to_addr (transmit_for_connection e q a s) = cid_to_addr s"
    by (simp_all add: transmit_for_connection_def)
qed

lemma consistent_transmit_for_connection:
  "consistent s \<Longrightarrow> consistent (transmit_for_connection e q a s)"
  by (simp add: consistent_def)

lemma consistent_promote_pending_connection:
  "consistent s \<Longrightarrow> consistent (promote_pending_connection e q a c s)"
proof -
  assume a: "consistent s"
  define s0 where "s0 = s\<lparr>pending_connections := AList.delete c (pending_connections s)\<rparr>"
  have c0: "consistent s0" using a by (simp add: s0_def consistent_def)
  have f: "consistent s' \<Longrightarrow> consistent (promotion_failed e c s')" for s'
    using consistent_remove_connection[of s' "close_fails e" c]
    by (simp add: promotion_failed_def Let_def consistent_def)
  have g: "consistent s' \<Longrightarrow> consistent (promotion_accepted conn s')" for s' conn
    by (simp add: promotion_accepted_def Let_def consistent_def)
  have "consistent (promote_pending_connection e q a c s)"
    unfolding promote_pending_connection_def Let_def s0_def[symmetric]
    using c0
    apply (cases "quic_configs s0")
     apply (auto intro!: f g)
               apply (simp_all add: consistent_def)
    done
  then show ?thesis .
qed

lemma consistent_process_quic_events:
  "consistent s \<Longrightarrow> consistent (snd (process_quic_events e evs q a c s))"
proof (induction e evs q a c s rule: process_quic_events.induct)
  case (3 e evs quic_conn addr dest_cid s)
  then show ?case by (simp add: consistent_remove_connection)
next
  case (4 e evs quic_conn addr dest_cid s)
  then show ?case by (simp add: consistent_promote_pending_connection)
next
  case (5 e evs quic_conn addr dest_cid s)
  have "consistent (s\<lparr>effects := x\<rparr>)" for x using 5(3) by (simp add: consistent_def)
  with 5 show ?case by (auto simp: Let_def split: option.splits)
next
  case (6 e evs quic_conn addr dest_cid s)
  have "consistent (s\<lparr>effects := x\<rparr>)" for x using 6(3) by (simp add: consistent_def)
  with 6 show ?case by (auto simp: Let_def split: option.splits)
qed simp_all


lemma consistent_effects [simp]: "consistent (s\<lparr>effects := x\<rparr>) = consistent s"
  by (simp add: consistent_def)

lemma consistent_rejected [simp]:
  "consistent (s\<lparr>connections_rejected := n\<rparr>) = consistent s"
  by (simp add: consistent_def)

lemma consistent_route_to_connection:
  "consistent s \<Longrightarrow> consistent (route_to_connection e conn d a s)"
  by (simp add: route_to_connection_def Let_def consistent_remove_connection_by_addr)

lemma consistent_handle_pending_connection:
  assumes "consistent s"
  shows "consistent (handle_pending_connection e q d a c s)"
proof -
  define s1 where "s1 = s\<lparr>effects := effects s @ [Receive_datagram q d a]\<rparr>"
  have c1: "consistent s1" using assms by (simp add: s1_def)
  obtain r s2 where p: "process_quic_events e (next_events e) q a c s1 = (r, s2)"
    by (cases "process_quic_events e (next_events e) q a c s1")
  have c2: "consistent s2"
    using consistent_process_quic_events[OF c1, of e "next_events e" q a c] p by simp
  show ?thesis
    using c1 c2 p
    by (cases r) (simp_all add: handle_pending_connection_def Let_def s1_def[symmetric]
          consistent_remove_pending_connection consistent_transmit_for_connection)
qed

lemma consistent_process_initial_packet:
  assumes "consistent s"
  shows "consistent (process_initial_packet e q d a c s)"
proof -
  define s1 where "s1 = s\<lparr>effects := effects s @ [Receive_datagram q d a]\<rparr>"
  have c1: "consistent s1" using assms by (simp add: s1_def)
  obtain r s2 where p: "process_quic_events e (next_events e) q a c s1 = (r, s2)"
    by (cases "process_quic_events e (next_events e) q a c s1")
  have c2: "consistent s2"
    using consistent_process_quic_events[OF c1, of e "next_events e" q a c] p by simp
  show ?thesis
    using c1 c2 p
    by (cases r) (simp_all add: process_initial_packet_def Let_def s1_def[symmetric]
          consistent_transmit_for_connection)
qed

lemma consistent_send_version_negotiation:
  "consistent s \<Longrightarrow> consistent (send_version_negotiation a scid s)"
  by (simp add: send_version_negotiation_def Let_def consistent_def)

lemma map_inverse:
  assumes "\<forall>a c. (map_of A a = Some c) = (map_of C c = Some a)"
    and "map_of A a0 = None" and "map_of C c0 = None"
  shows "\<forall>a c. (map_of (AList.update a0 c0 A) a = Some c)
            = (map_of (AList.update c0 a0 C) c = Some a)"
  using assms by (simp add: update_conv') (metis option.distinct(1))

lemma consistent_handle_new_connection:
  assumes "consistent s"
    and "map_of (addr_to_cid s) a = None"
    and "map_of (cid_to_addr s) (token_bytes e) = None"
  shows "consistent (handle_new_connection e d a info s)"
proof (cases "find (\<lambda>(protocol, config). wire_format e protocol = version info) (quic_configs s)")
  case None
  then show ?thesis
    using assms(1) by (simp add: handle_new_connection_def consistent_send_version_negotiation)
next
  case (Some pc)
  obtain p cfg where pc: "pc = (p, cfg)" by (cases pc)
  have inv: "\<forall>a c. (map_of (addr_to_cid s) a = Some c) = (map_of (cid_to_addr s) c = Some a)"
    using assms(1) by (simp add: consistent_def)
  have "consistent (s\<lparr>pending_connections := x,
           addr_to_cid := AList.update a (token_bytes e) (addr_to_cid s),
           cid_to_addr := AList.update (token_bytes e) a (cid_to_addr s)\<rparr>)" for x
    unfolding consistent_def using map_inverse[OF inv assms(2,3)] by simp
  then show ?thesis
    using Some pc assms(1)
    by (simp add: handle_new_connection_def Let_def consistent_process_initial_packet)
qed

lemma consistent_handle_short_header_packet:
  "consistent s \<Longrightarrow> consistent (handle_short_header_packet e d a s)"
  by (simp add: handle_short_header_packet_def consistent_route_to_connection
        consistent_handle_pending_connection split: option.splits)

lemma consistent_count_packet [simp]: "consistent (count_packet d s) = consistent s"
  by (simp add: consistent_def count_packet_def)

lemma consistent_process_packet:
  assumes "consistent s"
    and fresh: "map_of (cid_to_addr s) (token_bytes e) = None"
    and sound: "\<forall>x. map_of (addr_to_cid s) a = Some x \<longrightarrow>
       map_of (pending_connections s) x \<noteq> None \<or> map_of (connections s) x \<noteq> None"
  shows "consistent (process_packet e d a s)"
proof -
  have cs [simp]: "connections (count_packet d s) = connections s"
    "pending_connections (count_packet d s) = pending_connections s"
    "addr_to_cid (count_packet d s) = addr_to_cid s"
    "cid_to_addr (count_packet d s) = cid_to_addr s"
    by (simp_all add: count_packet_def)
  have c: "consistent (count_packet d s)" using assms(1) by simp
  have new: "map_of (addr_to_cid s) a = None \<Longrightarrow>
      consistent (handle_new_connection e d a info (count_packet d s))" for info
    using consistent_handle_new_connection[OF c, of a e d info] fresh by simp
  show ?thesis
    using c sound new
    by (auto simp: process_packet_def Let_def consistent_route_to_connection
          consistent_handle_pending_connection consistent_handle_short_header_packet
          consistent_send_version_negotiation
          split: option.splits)
qed

end
